theory Spec2Isabelle
  imports Complex_Main "HOL-Library.Product_Lexorder" "HOL-Library.Multiset" "HOL-Library.Log_Nat"
begin

section \<open>Strings and characters\<close>

text \<open>
  The program is \<^verbatim>\<open>pdf_outline_extractor.py\<close>. A Python \<^verbatim>\<open>str\<close> is modelled as a
  \<^typ>\<open>string\<close>; a \<^typ>\<open>char\<close> stands for the code point with the same number, so the model
  covers the code points 0 to 255.
\<close>

definition code :: "char \<Rightarrow> nat" where
  "code c = of_char c"

text \<open>\<^verbatim>\<open>str.isspace\<close> on one code point below 256; also the class \<^verbatim>\<open>\s\<close> of \<^verbatim>\<open>re\<close>.\<close>

definition is_space :: "char \<Rightarrow> bool" where
  "is_space c = ((9 \<le> code c \<and> code c \<le> 13) \<or> (28 \<le> code c \<and> code c \<le> 32)
                 \<or> code c = 133 \<or> code c = 160)"

text \<open>The class \<^verbatim>\<open>\d\<close> below code point 256.\<close>

definition is_digit :: "char \<Rightarrow> bool" where
  "is_digit c = (48 \<le> code c \<and> code c \<le> 57)"

text \<open>\<^verbatim>\<open>str.lower\<close> and the upper-case counterpart on one code point below 256.\<close>

definition lower_char :: "char \<Rightarrow> char" where
  "lower_char c =
     (if (65 \<le> code c \<and> code c \<le> 90) \<or> (192 \<le> code c \<and> code c \<le> 222 \<and> code c \<noteq> 215)
      then char_of (code c + 32) else c)"

definition upper_char :: "char \<Rightarrow> char" where
  "upper_char c =
     (if (97 \<le> code c \<and> code c \<le> 122) \<or> (224 \<le> code c \<and> code c \<le> 254 \<and> code c \<noteq> 247)
      then char_of (code c - 32) else c)"

definition lower :: "string \<Rightarrow> string" where
  "lower s = map lower_char s"

text \<open>\<^verbatim>\<open>str.strip()\<close>: leading and trailing white space removed.\<close>

definition lstrip :: "string \<Rightarrow> string" where
  "lstrip s = dropWhile is_space s"

definition rstrip :: "string \<Rightarrow> string" where
  "rstrip s = rev (dropWhile is_space (rev s))"

definition strip :: "string \<Rightarrow> string" where
  "strip s = rstrip (lstrip s)"

text \<open>\<^verbatim>\<open>s.startswith(p)\<close>, \<^verbatim>\<open>s.endswith(p)\<close> and \<^verbatim>\<open>k in s\<close> on strings.\<close>

fun startswith :: "string \<Rightarrow> string \<Rightarrow> bool" where
  "startswith s [] = True"
| "startswith [] (p # ps) = False"
| "startswith (c # cs) (p # ps) = (c = p \<and> startswith cs ps)"

definition endswith :: "string \<Rightarrow> string \<Rightarrow> bool" where
  "endswith s p = startswith (rev s) (rev p)"

fun contains :: "string \<Rightarrow> string \<Rightarrow> bool" where
  "contains [] k = (k = [])"
| "contains (c # cs) k = (startswith (c # cs) k \<or> contains cs k)"

section \<open>Regular expressions\<close>

text \<open>
  The fragment of Python's \<^verbatim>\<open>re\<close> syntax that the program uses. An \<open>atom\<close> is one item
  of a bracket class (or a class on its own); \<open>Sym\<close> is a bracket class or a single
  literal, \<open>Dot\<close> is \<^verbatim>\<open>.\<close>, \<open>Bol\<close> is \<^verbatim>\<open>^\<close>, \<open>Eol\<close> is \<^verbatim>\<open>$\<close>.
\<close>

datatype atom = Lit char | Rng char char | Digit | Space

datatype rx = Sym "atom list" | Dot | Bol | Eol | Eps
  | Cat rx rx | Alt rx rx | Star rx

abbreviation Plus :: "rx \<Rightarrow> rx" where
  "Plus r \<equiv> Cat r (Star r)"

abbreviation Opt :: "rx \<Rightarrow> rx" where
  "Opt r \<equiv> Alt r Eps"

fun Lits :: "string \<Rightarrow> rx" where
  "Lits [] = Eps"
| "Lits (c # cs) = Cat (Sym [Lit c]) (Lits cs)"

fun Seq :: "rx list \<Rightarrow> rx" where
  "Seq [] = Eps"
| "Seq (r # rs) = Cat r (Seq rs)"

fun atom_has :: "atom \<Rightarrow> char \<Rightarrow> bool" where
  "atom_has (Lit a) c = (c = a)"
| "atom_has (Rng a b) c = (code a \<le> code c \<and> code c \<le> code b)"
| "atom_has Digit c = is_digit c"
| "atom_has Space c = is_space c"

text \<open>
  With \<^verbatim>\<open>re.IGNORECASE\<close> a literal or a range also takes a character whose lower-case or
  upper-case form it contains; the classes \<^verbatim>\<open>\d\<close> and \<^verbatim>\<open>\s\<close> are not affected.
\<close>

fun atom_ok :: "bool \<Rightarrow> atom \<Rightarrow> char \<Rightarrow> bool" where
  "atom_ok ic Digit c = is_digit c"
| "atom_ok ic Space c = is_space c"
| "atom_ok ic a c =
     (atom_has a c \<or> (ic \<and> (atom_has a (lower_char c) \<or> atom_has a (upper_char c))))"

text \<open>
  \<open>rxm ic n r s\<close> lists what can remain of \<open>s\<close> after \<open>r\<close> has matched a prefix of it;
  \<open>n\<close> is the length of the whole subject, by which \<^verbatim>\<open>^\<close> recognises the start.
  \<^verbatim>\<open>$\<close> holds at the end and before a final newline; \<^verbatim>\<open>.\<close> takes anything but a newline.
  An iteration of a starred expression that consumes nothing is not repeated.
\<close>

function rxm :: "bool \<Rightarrow> nat \<Rightarrow> rx \<Rightarrow> string \<Rightarrow> string list" where
  "rxm ic n (Sym as) s =
     (case s of [] \<Rightarrow> [] | c # cs \<Rightarrow> if list_ex (\<lambda>a. atom_ok ic a c) as then [cs] else [])"
| "rxm ic n Dot s = (case s of [] \<Rightarrow> [] | c # cs \<Rightarrow> if code c \<noteq> 10 then [cs] else [])"
| "rxm ic n Bol s = (if length s = n then [s] else [])"
| "rxm ic n Eol s = (if s = [] \<or> s = [char_of (10::nat)] then [s] else [])"
| "rxm ic n Eps s = [s]"
| "rxm ic n (Cat a b) s = concat (map (rxm ic n b) (rxm ic n a s))"
| "rxm ic n (Alt a b) s = rxm ic n a s @ rxm ic n b s"
| "rxm ic n (Star a) s =
     s # concat (map (rxm ic n (Star a)) (filter (\<lambda>t. length t < length s) (rxm ic n a s)))"
  by pat_completeness auto
termination
  by (relation "measures [\<lambda>(ic, n, r, s). size r, \<lambda>(ic, n, r, s). length s]") auto

text \<open>\<^verbatim>\<open>re.match(pattern, s)\<close> and \<^verbatim>\<open>re.match(pattern, s, re.IGNORECASE)\<close> as truth values.\<close>

definition re_match :: "bool \<Rightarrow> rx \<Rightarrow> string \<Rightarrow> bool" where
  "re_match ic r s = (rxm ic (length s) r s \<noteq> [])"

section \<open>Python floats\<close>

text \<open>
  A finite Python float is the rational number it denotes, and an operation on floats
  rounds its exact result to the nearest double: 53 significant bits, a tie going to the
  even neighbour, with the fixed quantum \<open>2 powi (- 1074)\<close> below \<open>2 powi (- 1022)\<close>.
  The values \<^verbatim>\<open>inf\<close> and \<^verbatim>\<open>nan\<close> are outside the model: a result of magnitude
  \<open>2 ^ 1024\<close> or more stays the rational it rounds to.

  \<open>floor_log2 x\<close> is, for positive \<open>x\<close>, the \<open>e\<close> with \<open>2 powi e \<le> x < 2 powi (e + 1)\<close>.
\<close>

definition floor_log2 :: "rat \<Rightarrow> int" where
  "floor_log2 x =
     (case quotient_of x of (p, q) \<Rightarrow>
        let d = bitlen p - bitlen q in if 2 powi d \<le> x then d else d - 1)"

definition round_half_even :: "rat \<Rightarrow> int" where
  "round_half_even x =
     (let n = \<lfloor>x\<rfloor>; r = x - of_int n
      in if r < 1 / 2 then n else if r > 1 / 2 then n + 1 else if even n then n else n + 1)"

definition to_double :: "rat \<Rightarrow> rat" where
  "to_double x =
     (if x = 0 then 0
      else let q = max (floor_log2 \<bar>x\<bar>) (- 1022) - 52
           in of_int (round_half_even (x / 2 powi q)) * 2 powi q)"

text \<open>\<^verbatim>\<open>a * b\<close>, \<^verbatim>\<open>a + b\<close> and \<^verbatim>\<open>a / b\<close> on floats.\<close>

definition fmul :: "rat \<Rightarrow> rat \<Rightarrow> rat" where
  "fmul a b = to_double (a * b)"

definition fadd :: "rat \<Rightarrow> rat \<Rightarrow> rat" where
  "fadd a b = to_double (a + b)"

definition fdiv :: "rat \<Rightarrow> rat \<Rightarrow> rat" where
  "fdiv a b = to_double (a / b)"

text \<open>The literals \<^verbatim>\<open>1.1\<close> and \<^verbatim>\<open>1.05\<close>: the doubles nearest to 11/10 and 105/100.\<close>

definition lit_1_1 :: rat where
  "lit_1_1 = to_double (11 / 10)"

definition lit_1_05 :: rat where
  "lit_1_05 = to_double (105 / 100)"

section \<open>The heading classifier\<close>

text \<open>
  \<^verbatim>\<open>self.heading_patterns\<close>, in the order of the source:
  \<^verbatim>\<open>^(Chapter|Section|Part)\s+\d+[\.:]\s*(.+)\<close>,
  \<^verbatim>\<open>^(\d+\.?\d*\.?\d*)\s+(.+)\<close>,
  \<^verbatim>\<open>^([A-Z][A-Z\s]+)$\<close> and
  \<^verbatim>\<open>^([A-Z][a-z]+(?:\s+[A-Z][a-z]+)*)\s*$\<close>.
  Groups only capture, so they leave no trace in a truth value.
\<close>

abbreviation upper_AZ :: atom where
  "upper_AZ \<equiv> Rng (CHR ''A'') (CHR ''Z'')"

abbreviation lower_az :: atom where
  "lower_az \<equiv> Rng (CHR ''a'') (CHR ''z'')"

definition chapter_pattern :: rx where
  "chapter_pattern =
     Seq [Bol, Alt (Lits ''Chapter'') (Alt (Lits ''Section'') (Lits ''Part'')),
          Plus (Sym [Space]), Plus (Sym [Digit]), Sym [Lit (CHR ''.''), Lit (CHR '':'')],
          Star (Sym [Space]), Plus Dot]"

definition numbered_pattern :: rx where
  "numbered_pattern =
     Seq [Bol, Plus (Sym [Digit]), Opt (Sym [Lit (CHR ''.'')]), Star (Sym [Digit]),
          Opt (Sym [Lit (CHR ''.'')]), Star (Sym [Digit]), Plus (Sym [Space]), Plus Dot]"

definition all_caps_pattern :: rx where
  "all_caps_pattern = Seq [Bol, Sym [upper_AZ], Plus (Sym [upper_AZ, Space]), Eol]"

definition title_case_pattern :: rx where
  "title_case_pattern =
     Seq [Bol, Sym [upper_AZ], Plus (Sym [lower_az]),
          Star (Seq [Plus (Sym [Space]), Sym [upper_AZ], Plus (Sym [lower_az])]),
          Star (Sym [Space]), Eol]"

definition heading_patterns :: "rx list" where
  "heading_patterns = [chapter_pattern, numbered_pattern, all_caps_pattern, title_case_pattern]"

definition heading_keywords :: "string list" where
  "heading_keywords =
     [''introduction'', ''conclusion'', ''abstract'', ''summary'', ''overview'',
      ''methodology'', ''results'', ''discussion'', ''background'', ''literature'',
      ''references'', ''appendix'', ''acknowledgments'', ''contents'', ''index'']"

text \<open>The pattern \<^verbatim>\<open>^[\d\s\.\-\(\)]+$\<close> of the second reject filter.\<close>

definition numeric_pattern :: rx where
  "numeric_pattern =
     Seq [Bol, Plus (Sym [Digit, Space, Lit (CHR ''.''), Lit (CHR ''-''),
                          Lit (CHR ''(''), Lit (CHR '')'')]), Eol]"

definition nonheading_endings :: "string list" where
  "nonheading_endings = [''.'', ''!'', ''?'', '','', '';'', '':'']"

text \<open>The three reject filters of \<^verbatim>\<open>is_heading_candidate\<close>, on the stripped text.\<close>

definition rejected :: "string \<Rightarrow> bool" where
  "rejected text_clean =
     (if length text_clean < 3 \<or> length text_clean > 200 then True
      else if re_match False numeric_pattern text_clean then True
      else if list_ex (endswith text_clean) nonheading_endings then True
      else False)"

definition is_heading_candidate :: "string \<Rightarrow> rat \<Rightarrow> int \<Rightarrow> rat \<Rightarrow> rat \<Rightarrow> bool" where
  "is_heading_candidate text font_size font_flags avg_font_size common_font_size =
     (let text_clean = strip text in
      if rejected text_clean then False
      else
        let size_threshold = max (fmul avg_font_size lit_1_1) (fmul common_font_size lit_1_05) in
        if font_size \<ge> size_threshold then True
        else if and font_flags (2 ^ 4) \<noteq> 0 then True
        else if list_ex (\<lambda>pattern. re_match True pattern text_clean) heading_patterns then True
        else if list_ex (\<lambda>keyword. contains (lower text_clean) keyword) heading_keywords then True
        else False)"

section \<open>The document and the records of the program\<close>

text \<open>
  What the program reads of a \<^verbatim>\<open>fitz.Document\<close>: the title of its metadata
  (\<^verbatim>\<open>metadata.get('title')\<close>, \<open>None\<close> when there is none) and, for every page, the blocks
  of \<^verbatim>\<open>page.get_text("dict")["blocks"]\<close>. A block has lines (\<open>Some\<close>) or, as an image
  block, has no key \<^verbatim>\<open>"lines"\<close> (\<open>None\<close>); a line is the list of its spans.
\<close>

record span =
  span_text :: string
  span_size :: rat
  span_flags :: int

type_synonym line = "span list"

type_synonym block = "line list option"

type_synonym page = "block list"

record document =
  metadata_title :: "string option"
  pages :: "page list"

text \<open>The dictionary appended to \<^verbatim>\<open>all_text_info\<close>.\<close>

record text_info =
  info_text :: string
  info_font_size :: rat
  info_font_flags :: int
  info_page :: nat

text \<open>The dataclass \<^verbatim>\<open>Heading\<close>.\<close>

record heading =
  level :: string
  "text" :: string
  page :: nat
  font_size :: rat
  font_flags :: int

text \<open>An element of \<^verbatim>\<open>outline\<close> and the dictionary that \<^verbatim>\<open>extract_outline\<close> returns.\<close>

record entry =
  entry_level :: string
  entry_text :: string
  entry_page :: nat

record result =
  title :: string
  outline :: "entry list"

section \<open>The title\<close>

text \<open>
  The three nested loops of \<^verbatim>\<open>extract_title_from_document\<close> pass the pair
  \<open>(largest_text, largest_size)\<close> along.
\<close>

definition title_span :: "span \<Rightarrow> string \<times> rat \<Rightarrow> string \<times> rat" where
  "title_span sp st =
     (case st of (largest_text, largest_size) \<Rightarrow>
        if span_size sp > largest_size then (strip (span_text sp), span_size sp)
        else (largest_text, largest_size))"

definition title_block :: "block \<Rightarrow> string \<times> rat \<Rightarrow> string \<times> rat" where
  "title_block b st =
     (case b of None \<Rightarrow> st | Some lines \<Rightarrow> fold (\<lambda>line. fold title_span line) lines st)"

definition extract_title_from_document :: "document \<Rightarrow> string" where
  "extract_title_from_document doc =
     (if metadata_title doc \<noteq> None \<and> metadata_title doc \<noteq> Some []
      then strip (the (metadata_title doc))
      else if length (pages doc) > 0 then
        (let blocks = pages doc ! 0;
             largest_text = fst (fold title_block blocks ([], 0))
         in if largest_text \<noteq> [] \<and> length largest_text > 3 then largest_text
            else ''Untitled Document'')
      else ''Untitled Document'')"

section \<open>Collecting the lines\<close>

text \<open>The loop over the spans of one line: text, largest size and the flags of all spans.\<close>

definition merge_spans :: "line \<Rightarrow> string \<times> rat \<times> int" where
  "merge_spans spans =
     fold (\<lambda>sp (line_text, line_font_size, line_font_flags).
             (line_text @ span_text sp, max line_font_size (span_size sp),
              or line_font_flags (span_flags sp)))
          spans ([], 0, 0)"

definition collect_line :: "nat \<Rightarrow> line \<Rightarrow> text_info list" where
  "collect_line page_num spans =
     (case merge_spans spans of (line_text, line_font_size, line_font_flags) \<Rightarrow>
        if strip line_text \<noteq> [] then
          [\<lparr>info_text = strip line_text, info_font_size = line_font_size,
            info_font_flags = line_font_flags, info_page = page_num + 1\<rparr>]
        else [])"

definition collect_block :: "nat \<Rightarrow> block \<Rightarrow> text_info list" where
  "collect_block page_num b =
     (case b of None \<Rightarrow> [] | Some lines \<Rightarrow> concat (map (collect_line page_num) lines))"

text \<open>\<^verbatim>\<open>for page_num in range(min(len(doc), 50))\<close>.\<close>

definition collect_text_info :: "document \<Rightarrow> text_info list" where
  "collect_text_info doc =
     concat (map (\<lambda>page_num. concat (map (collect_block page_num) (pages doc ! page_num)))
                 [0 ..< min (length (pages doc)) 50])"

section \<open>Font statistics\<close>

text \<open>
  \<^verbatim>\<open>sum(font_sizes)\<close> adds from the left, starting from 0, and every addition rounds.
  (From CPython 3.12 on \<^verbatim>\<open>sum\<close> also carries the rounding errors of the additions along,
  which can change the last bit of the result.)
\<close>

definition fsum :: "rat list \<Rightarrow> rat" where
  "fsum xs = fold (\<lambda>x s. fadd s x) xs 0"

text \<open>\<^verbatim>\<open>sum(font_sizes) / len(font_sizes) if font_sizes else 12\<close>.\<close>

definition avg_font_size_of :: "rat list \<Rightarrow> rat" where
  "avg_font_size_of font_sizes =
     (if font_sizes \<noteq> [] then fdiv (fsum font_sizes) (to_double (of_nat (length font_sizes)))
      else 12)"

text \<open>
  Python's \<^verbatim>\<open>max(iterable, key=f)\<close> keeps the first item whose key is largest: a later
  item replaces the current one only when its key is strictly greater.
\<close>

fun max_by_key :: "('a \<Rightarrow> nat) \<Rightarrow> 'a \<Rightarrow> 'a list \<Rightarrow> 'a" where
  "max_by_key f m [] = m"
| "max_by_key f m (x # xs) = max_by_key f (if f x > f m then x else m) xs"

text \<open>
  Python does not fix the order in which \<^verbatim>\<open>set(font_sizes)\<close> is enumerated; CPython
  enumerates a set by the position of each member in its hash table. The order is a
  parameter of the model: \<open>slot\<close> gives each value its position, and the distinct values
  are enumerated by ascending position.
\<close>

definition set_items :: "(rat \<Rightarrow> nat) \<Rightarrow> rat list \<Rightarrow> rat list" where
  "set_items slot xs = sort_key slot (remdups xs)"

text \<open>
  One such order: CPython's hash of a float with an integral value is that integer, and a set of fewer
  than five members has a table of 8 slots: without collision a member sits in the
  slot \<open>hash mod 8\<close>. So \<^verbatim>\<open>set([12.0, 10.0])\<close> is enumerated as \<^verbatim>\<open>10.0, 12.0\<close>.
\<close>

definition small_table_slot :: "rat \<Rightarrow> nat" where
  "small_table_slot x = nat \<lfloor>x\<rfloor> mod 8"

text \<open>
  \<^verbatim>\<open>max(set(font_sizes), key=font_sizes.count) if font_sizes else 12\<close>. The set has no
  member exactly when \<open>font_sizes\<close> is empty, so the test is made on its enumeration.
\<close>

definition common_font_size_of :: "(rat \<Rightarrow> nat) \<Rightarrow> rat list \<Rightarrow> rat" where
  "common_font_size_of slot font_sizes =
     (case set_items slot font_sizes of
        [] \<Rightarrow> 12
      | x # xs \<Rightarrow> max_by_key (count_list font_sizes) x xs)"

section \<open>Heading levels\<close>

text \<open>The decimal numeral of \<^verbatim>\<open>f"H{i+1}"\<close>.\<close>

function str_nat :: "nat \<Rightarrow> string" where
  "str_nat n =
     (if n < 10 then [char_of (48 + n)] else str_nat (n div 10) @ [char_of (48 + n mod 10)])"
  by pat_completeness auto
termination
  by (relation "measure id") auto

text \<open>
  \<^verbatim>\<open>sorted(set(font_sizes), reverse=True)\<close> is the descending list of the distinct sizes,
  whatever the order in which the set is enumerated. \<open>size_to_level\<close> is the dictionary
  filled by the loop over \<^verbatim>\<open>enumerate(unique_sizes[:3])\<close>.
\<close>

definition size_to_level_of :: "rat list \<Rightarrow> (rat \<rightharpoonup> string)" where
  "size_to_level_of unique_sizes =
     fold (\<lambda>(i, size) m. m(size \<mapsto> ''H'' @ str_nat (i + 1)))
          (enumerate 0 (take 3 unique_sizes)) Map.empty"

definition determine_heading_level :: "heading \<Rightarrow> heading list \<Rightarrow> string" where
  "determine_heading_level h all_headings =
     (let font_sizes = map font_size all_headings;
          unique_sizes = rev (sorted_list_of_set (set font_sizes));
          size_to_level = size_to_level_of unique_sizes
      in case size_to_level (font_size h) of Some l \<Rightarrow> l | None \<Rightarrow> ''H3'')"

text \<open>
  \<^verbatim>\<open>for heading in headings: heading.level = self.determine_heading_level(heading, headings)\<close>:
  the list is updated in place, so each call sees the levels already written.
\<close>

definition assign_levels :: "heading list \<Rightarrow> heading list" where
  "assign_levels headings =
     fold (\<lambda>i hs. hs[i := (hs ! i)\<lparr>level := determine_heading_level (hs ! i) hs\<rparr>])
          [0 ..< length headings] headings"

section \<open>The outline\<close>

definition to_heading :: "text_info \<Rightarrow> heading" where
  "to_heading info =
     \<lparr>level = [], text = info_text info, page = info_page info,
      font_size = info_font_size info, font_flags = info_font_flags info\<rparr>"

definition find_headings :: "rat \<Rightarrow> rat \<Rightarrow> text_info list \<Rightarrow> heading list" where
  "find_headings avg_font_size common_font_size all_text_info =
     map to_heading
       (filter (\<lambda>info. is_heading_candidate (info_text info) (info_font_size info)
                         (info_font_flags info) avg_font_size common_font_size)
               all_text_info)"

text \<open>\<^verbatim>\<open>sorted(headings, key=lambda h: (h.page, h.font_size))\<close>; Python's sort is stable.\<close>

definition sort_headings :: "heading list \<Rightarrow> heading list" where
  "sort_headings headings = sort_key (\<lambda>h. (page h, font_size h)) headings"

text \<open>One round of the loop that fills \<^verbatim>\<open>seen\<close> and \<^verbatim>\<open>unique_headings\<close>.\<close>

definition unique_step :: "heading \<Rightarrow> string set \<times> heading list \<Rightarrow> string set \<times> heading list" where
  "unique_step h st =
     (case st of (seen, unique_headings) \<Rightarrow>
        if text h \<notin> seen then (insert (text h) seen, unique_headings @ [h])
        else (seen, unique_headings))"

definition unique_headings_of :: "heading list \<Rightarrow> heading list" where
  "unique_headings_of headings = snd (fold unique_step (sort_headings headings) ({}, []))"

definition to_entry :: "heading \<Rightarrow> entry" where
  "to_entry h = \<lparr>entry_level = level h, entry_text = text h, entry_page = page h\<rparr>"

text \<open>Lines 176 to 190 of the source: sort, drop repeated texts, convert.\<close>

definition resolve_outline :: "heading list \<Rightarrow> entry list" where
  "resolve_outline headings = map to_entry (unique_headings_of headings)"

definition extract_outline :: "(rat \<Rightarrow> nat) \<Rightarrow> document \<Rightarrow> result" where
  "extract_outline slot doc =
     (let title = extract_title_from_document doc;
          all_text_info = collect_text_info doc;
          font_sizes = map info_font_size all_text_info;
          avg_font_size = avg_font_size_of font_sizes;
          common_font_size = common_font_size_of slot font_sizes;
          headings = find_headings avg_font_size common_font_size all_text_info;
          headings = assign_levels headings
      in \<lparr>title = title, outline = resolve_outline headings\<rparr>)"

section \<open>The wording of the specification\<close>

text \<open>
  The reject filters as the specification words them: fewer than 3 or more than 200
  characters, nothing but digits, white space and \<^verbatim>\<open>. - ( )\<close>, or one of
  \<^verbatim>\<open>. ! ? , ; :\<close> at the end.
\<close>

definition numeric_char :: "char \<Rightarrow> bool" where
  "numeric_char c = (is_digit c \<or> is_space c \<or> c \<in> set ''.-()'')"

definition spec_rejected :: "string \<Rightarrow> bool" where
  "spec_rejected s =
     (length s < 3 \<or> length s > 200 \<or> list_all numeric_char s
      \<or> (s \<noteq> [] \<and> last s \<in> set ''.!?,;:''))"

text \<open>
  A text of ASCII letters and spaces, as the claim on the case-insensitive patterns
  words it.
\<close>

definition ascii_letter :: "char \<Rightarrow> bool" where
  "ascii_letter c = ((65 \<le> code c \<and> code c \<le> 90) \<or> (97 \<le> code c \<and> code c \<le> 122))"

definition letters_and_spaces :: "string \<Rightarrow> bool" where
  "letters_and_spaces s = list_all (\<lambda>c. ascii_letter c \<or> c = CHR '' '') s"

text \<open>
  The statistical mode with the tie-break of the specification: among the values of
  highest frequency, the one met first in the input.
\<close>

definition is_mode :: "rat list \<Rightarrow> rat \<Rightarrow> bool" where
  "is_mode xs x = (x \<in> set xs \<and> (\<forall>y\<in>set xs. count_list xs y \<le> count_list xs x))"

definition spec_common_size :: "rat list \<Rightarrow> rat" where
  "spec_common_size xs = (if xs = [] then 12 else hd (filter (is_mode xs) xs))"

text \<open>
  Keep-first removal of repeated texts, as the specification words it: a candidate
  stays exactly when no candidate before it has the same text.
\<close>

definition first_occurrences :: "heading list \<Rightarrow> heading list" where
  "first_occurrences xs =
     map (\<lambda>i. xs ! i)
       (filter (\<lambda>i. text (xs ! i) \<notin> set (map text (take i xs))) [0 ..< length xs])"

text \<open>
  Title resolution as the specification words it, on the title of the metadata and the
  spans of the first page in reading order: a metadata title that is not blank after
  trimming is returned trimmed; otherwise the first span of largest size gives the
  title when its trimmed text has more than 3 characters.
\<close>

definition first_page_spans :: "document \<Rightarrow> span list" where
  "first_page_spans doc =
     (if pages doc = [] then []
      else concat (map (\<lambda>b. case b of None \<Rightarrow> [] | Some lines \<Rightarrow> concat lines) (pages doc ! 0)))"

definition first_largest :: "span list \<Rightarrow> span" where
  "first_largest spans = hd (filter (\<lambda>s. \<forall>q\<in>set spans. span_size q \<le> span_size s) spans)"

definition spec_title :: "string option \<Rightarrow> span list \<Rightarrow> string" where
  "spec_title meta spans =
     (if meta \<noteq> None \<and> strip (the meta) \<noteq> [] then strip (the meta)
      else if spans \<noteq> [] \<and> length (strip (span_text (first_largest spans))) > 3
        then strip (span_text (first_largest spans))
      else ''Untitled Document'')"

section \<open>A sample document\<close>

text \<open>A document of two pages: a heading, an image block, a line of two spans and a sentence.\<close>

definition two_page_doc :: document where
  "two_page_doc =
     \<lparr>metadata_title = None,
      pages = [[Some [[\<lparr>span_text = ''Scope'', span_size = 20, span_flags = 0\<rparr>]]],
               [None, Some [[\<lparr>span_text = ''Goals of '', span_size = 14, span_flags = 0\<rparr>,
                            \<lparr>span_text = ''the work '', span_size = 16, span_flags = 16\<rparr>],
                           [\<lparr>span_text = ''it was done in 1999.'', span_size = 10, span_flags = 0\<rparr>]]]]\<rparr>"

section \<open>Properties of the matcher\<close>

text \<open>The equation for a starred expression is unfolded only on demand.\<close>

declare rxm.simps(8) [simp del]

lemma rxm_Cat_iff:
  "t \<in> set (rxm ic n (Cat a b) s) \<longleftrightarrow> (\<exists>m\<in>set (rxm ic n a s). t \<in> set (rxm ic n b m))"
  by simp

lemma rxm_CatI:
  "m \<in> set (rxm ic n a s) \<Longrightarrow> t \<in> set (rxm ic n b m) \<Longrightarrow> t \<in> set (rxm ic n (Cat a b) s)"
  by auto

lemma rxm_Star_refl: "s \<in> set (rxm ic n (Star a) s)"
  by (subst rxm.simps(8)) simp

lemma rxm_Star_step:
  "m \<in> set (rxm ic n a s) \<Longrightarrow> length m < length s \<Longrightarrow> t \<in> set (rxm ic n (Star a) m)
   \<Longrightarrow> t \<in> set (rxm ic n (Star a) s)"
  by (subst rxm.simps(8)) auto

lemma rxm_Star_Sym_all:
  "\<forall>c\<in>set u. list_ex (\<lambda>a. atom_ok ic a c) as \<Longrightarrow> t \<in> set (rxm ic n (Star (Sym as)) (u @ t))"
proof (induction u)
  case Nil
  show ?case by (simp add: rxm_Star_refl)
next
  case (Cons c u)
  have "u @ t \<in> set (rxm ic n (Sym as) ((c # u) @ t))"
    using Cons.prems by simp
  moreover have "length (u @ t) < length ((c # u) @ t)" by simp
  moreover have "t \<in> set (rxm ic n (Star (Sym as)) (u @ t))"
    using Cons by simp
  ultimately show ?case by (rule rxm_Star_step)
qed

lemma class_line_match:
  assumes "s \<noteq> []" and "\<forall>c\<in>set s. list_ex (\<lambda>a. atom_ok ic a c) as"
  shows "re_match ic (Seq [Bol, Plus (Sym as), Eol]) s"
proof -
  obtain c cs where s: "s = c # cs" using assms(1) by (cases s) auto
  have 1: "s \<in> set (rxm ic (length s) Bol s)" by simp
  have 2: "cs \<in> set (rxm ic (length s) (Sym as) s)" using assms(2) s by simp
  have 3: "[] \<in> set (rxm ic (length s) (Star (Sym as)) cs)"
    using rxm_Star_Sym_all[of cs ic as "[]" "length s"] assms(2) s by simp
  have 4: "[] \<in> set (rxm ic (length s) (Plus (Sym as)) s)"
    using 2 3 by (rule rxm_CatI)
  have 5: "[] \<in> set (rxm ic (length s) (Seq [Eol]) [])" by simp
  have 6: "[] \<in> set (rxm ic (length s) (Seq [Plus (Sym as), Eol]) s)"
    unfolding Seq.simps using 4 5 [unfolded Seq.simps] by (rule rxm_CatI)
  have "[] \<in> set (rxm ic (length s) (Seq [Bol, Plus (Sym as), Eol]) s)"
    unfolding Seq.simps using 1 6 [unfolded Seq.simps] by (rule rxm_CatI)
  then show ?thesis unfolding re_match_def by auto
qed


lemma rxm_Star_Sym_only:
  "t \<in> set (rxm ic n (Star (Sym as)) s)
   \<Longrightarrow> \<exists>u. s = u @ t \<and> (\<forall>c\<in>set u. list_ex (\<lambda>a. atom_ok ic a c) as)"
proof (induction s)
  case Nil
  then show ?case by (subst (asm) rxm.simps(8)) simp
next
  case (Cons c cs)
  from Cons.prems have "t = c # cs \<or> (list_ex (\<lambda>a. atom_ok ic a c) as \<and> t \<in> set (rxm ic n (Star (Sym as)) cs))"
    by (subst (asm) rxm.simps(8)) (auto split: if_splits)
  then show ?case
  proof
    assume "t = c # cs"
    then show ?thesis by simp
  next
    assume a: "list_ex (\<lambda>a. atom_ok ic a c) as \<and> t \<in> set (rxm ic n (Star (Sym as)) cs)"
    then obtain u where "cs = u @ t" "\<forall>c\<in>set u. list_ex (\<lambda>a. atom_ok ic a c) as"
      using Cons.IH by blast
    then have "c # cs = (c # u) @ t \<and> (\<forall>x\<in>set (c # u). list_ex (\<lambda>a. atom_ok ic a x) as)"
      using a by simp
    then show ?thesis by blast
  qed
qed

lemma class_line_only:
  assumes "re_match ic (Seq [Bol, Plus (Sym as), Eol]) s"
    and nl: "list_ex (\<lambda>a. atom_ok ic a (char_of (10::nat))) as"
  shows "s \<noteq> [] \<and> (\<forall>c\<in>set s. list_ex (\<lambda>a. atom_ok ic a c) as)"
proof -
  from assms(1) obtain t where "t \<in> set (rxm ic (length s) (Seq [Bol, Plus (Sym as), Eol]) s)"
    unfolding re_match_def by (cases "rxm ic (length s) (Seq [Bol, Plus (Sym as), Eol]) s") auto
  then obtain m where m: "m \<in> set (rxm ic (length s) (Plus (Sym as)) s)"
      and t: "t \<in> set (rxm ic (length s) (Seq [Eol]) m)"
    by (auto split: if_splits)
  from t have mt: "m = [] \<or> m = [char_of (10::nat)]" by (auto split: if_splits)
  from m obtain c cs where s: "s = c # cs" and c: "list_ex (\<lambda>a. atom_ok ic a c) as"
      and m': "m \<in> set (rxm ic (length s) (Star (Sym as)) cs)"
    by (cases s) (auto split: if_splits)
  from rxm_Star_Sym_only[OF m'] obtain u where u: "cs = u @ m" "\<forall>c\<in>set u. list_ex (\<lambda>a. atom_ok ic a c) as"
    by blast
  show ?thesis using s c u mt nl by auto
qed

section \<open>The reject filters and the size rule\<close>

lemma endswith_single: "endswith s [c] \<longleftrightarrow> s \<noteq> [] \<and> last s = c"
  by (cases s rule: rev_cases) (auto simp: endswith_def)


lemma numeric_class:
  "list_ex (\<lambda>a. atom_ok False a c)
     [Digit, Space, Lit (CHR ''.''), Lit (CHR ''-''), Lit (CHR ''(''), Lit (CHR '')'')]
   = numeric_char c"
  by (auto simp: numeric_char_def)

lemma numeric_pattern_iff:
  "re_match False numeric_pattern s \<longleftrightarrow> s \<noteq> [] \<and> list_all numeric_char s"
proof
  assume m: "re_match False numeric_pattern s"
  have nl: "list_ex (\<lambda>a. atom_ok False a (char_of (10::nat)))
     [Digit, Space, Lit (CHR ''.''), Lit (CHR ''-''), Lit (CHR ''(''), Lit (CHR '')'')]"
    by (simp add: is_space_def code_def)
  have "s \<noteq> [] \<and> (\<forall>c\<in>set s. numeric_char c)"
    using class_line_only[OF m[unfolded numeric_pattern_def] nl] unfolding numeric_class .
  then show "s \<noteq> [] \<and> list_all numeric_char s"
    by (simp add: list_all_iff)
next
  assume a: "s \<noteq> [] \<and> list_all numeric_char s"
  then have "\<forall>c\<in>set s. list_ex (\<lambda>a. atom_ok False a c)
     [Digit, Space, Lit (CHR ''.''), Lit (CHR ''-''), Lit (CHR ''(''), Lit (CHR '')'')]"
    unfolding numeric_class by (simp add: list_all_iff)
  with a show "re_match False numeric_pattern s"
    unfolding numeric_pattern_def by (intro class_line_match) simp_all
qed

lemma endings_iff:
  "list_ex (endswith s) nonheading_endings \<longleftrightarrow> s \<noteq> [] \<and> last s \<in> set ''.!?,;:''"
  by (auto simp: nonheading_endings_def endswith_single)

lemma rejected_iff: "rejected s = spec_rejected s"
  unfolding rejected_def spec_rejected_def
  by (auto simp: numeric_pattern_iff endings_iff)


lemma is_heading_candidate_rejected:
  "rejected (strip t) \<Longrightarrow> \<not> is_heading_candidate t fsize fflags avg common"
  by (simp add: is_heading_candidate_def)

lemma is_heading_candidate_size:
  "\<not> rejected (strip t) \<Longrightarrow> fsize \<ge> max (fmul avg lit_1_1) (fmul common lit_1_05)
   \<Longrightarrow> is_heading_candidate t fsize fflags avg common"
  by (simp add: is_heading_candidate_def Let_def)

lemmas eval_strip = strip_def lstrip_def rstrip_def is_space_def code_def

text \<open>
  Claim C1. The reject filters are evaluated before any accept rule. A line whose trimmed
  text has fewer than 3 or more than 200 characters, or consists solely of digits, white
  space and \<^verbatim>\<open>. - ( )\<close>, or ends in one of \<^verbatim>\<open>. ! ? , ; :\<close>, is not a heading
  candidate, whatever its font size, its style flags and the font profile. In particular
  the line \<^verbatim>\<open>see fig. 3.\<close> with font size 20 is rejected.
\<close>

theorem reject_filters_first:
  "(spec_rejected (strip t) \<longrightarrow> \<not> is_heading_candidate t fsize fflags avg common)
   \<and> \<not> is_heading_candidate ''see fig. 3.'' 20 fflags avg common"
proof
  show "spec_rejected (strip t) \<longrightarrow> \<not> is_heading_candidate t fsize fflags avg common"
    using is_heading_candidate_rejected by (simp add: rejected_iff)
  have "spec_rejected (strip ''see fig. 3.'')"
    by (simp add: spec_rejected_def eval_strip)
  then show "\<not> is_heading_candidate ''see fig. 3.'' 20 fflags avg common"
    using is_heading_candidate_rejected by (simp add: rejected_iff)
qed

text \<open>Three rejected lines, one for each filter, all large and bold.\<close>

theorem reject_filters_first_witness:
  "spec_rejected (strip '' (12) - 3.5 '') \<and> \<not> is_heading_candidate '' (12) - 3.5 '' 30 16 12 12
   \<and> spec_rejected (strip ''Results:'') \<and> \<not> is_heading_candidate ''Results:'' 30 16 12 12
   \<and> spec_rejected (strip ''ab'') \<and> \<not> is_heading_candidate ''ab'' 30 16 12 12"
  using reject_filters_first [where t = "'' (12) - 3.5 ''" and fsize = 30 and fflags = 16
      and avg = 12 and common = 12]
    reject_filters_first [where t = "''Results:''" and fsize = 30 and fflags = 16
      and avg = 12 and common = 12]
    reject_filters_first [where t = "''ab''" and fsize = 30 and fflags = 16
      and avg = 12 and common = 12]
  by (simp add: spec_rejected_def numeric_char_def is_digit_def eval_strip)

text \<open>The two literals, and the two products on which the next examples turn.\<close>

lemma float_literals:
  "lit_1_1 = 2476979795053773 / 2251799813685248"
  "lit_1_05 = 4728779608739021 / 4503599627370496"
  by code_simp+

lemma float_products:
  "fmul 12 lit_1_1 = 7430939385161319 / 562949953421312"
  "fmul 11 lit_1_05 = 3251035981008077 / 281474976710656"
  "fmul 50 lit_1_1 = 7740561859543041 / 140737488355328"
  "fmul 50 lit_1_05 = 105 / 2"
  "fmul 12 lit_1_05 = 1773292353277133 / 140737488355328"
  by code_simp+

text \<open>
  Claim C2. A line that passes the reject filters and whose font size is at least
  \<^verbatim>\<open>max(average_size * 1.1, common_size * 1.05)\<close>, the two products being those of
  Python's doubles, is a heading candidate. In particular the line \<^verbatim>\<open>Background\<close> with
  font size 18 and no style flag is one when the average size is 12 and the common size
  is 11.
\<close>

theorem size_rule_accepts:
  "(\<not> spec_rejected (strip t) \<and> fsize \<ge> max (fmul avg lit_1_1) (fmul common lit_1_05)
      \<longrightarrow> is_heading_candidate t fsize fflags avg common)
   \<and> is_heading_candidate ''Background'' 18 0 12 11"
proof
  show "\<not> spec_rejected (strip t) \<and> fsize \<ge> max (fmul avg lit_1_1) (fmul common lit_1_05)
      \<longrightarrow> is_heading_candidate t fsize fflags avg common"
    using is_heading_candidate_size by (simp add: rejected_iff)
  have "\<not> spec_rejected (strip ''Background'')"
    by (simp add: spec_rejected_def numeric_char_def is_digit_def eval_strip)
  then have "\<not> rejected (strip ''Background'')" by (simp add: rejected_iff)
  moreover have "(18::rat) \<ge> max (fmul 12 lit_1_1) (fmul 11 lit_1_05)"
    by (simp add: float_products)
  ultimately show "is_heading_candidate ''Background'' 18 0 12 11"
    by (rule is_heading_candidate_size)
qed

text \<open>A line of size 14 in a corpus of average and common size 12.\<close>

theorem size_rule_accepts_witness:
  "\<not> spec_rejected (strip ''  Project plan '')
   \<and> (14::rat) \<ge> max (fmul 12 lit_1_1) (fmul 12 lit_1_05)
   \<and> is_heading_candidate ''  Project plan '' 14 0 12 12"
  using size_rule_accepts [where t = "''  Project plan ''" and fsize = 14 and avg = 12
      and common = 12 and fflags = 0]
  by (simp add: spec_rejected_def numeric_char_def is_digit_def eval_strip float_products)

text \<open>
  The rounding of the products matters. For the line \<^verbatim>\<open>plan b2\<close> of size 55, without
  flags, in a corpus of average and common size 50, the exact product \<open>50 * 11/10\<close> is 55
  and the size would reach it; on doubles \<^verbatim>\<open>50.0 * 1.1\<close> is 55.00000000000001, the size
  rule does not fire, no other rule accepts the line, and it is not a heading candidate.
\<close>

lemma size_rule_rounding_example:
  "\<not> spec_rejected (strip ''plan b2'')
   \<and> (55::rat) \<ge> max (50 * (11 / 10)) (50 * (105 / 100))
   \<and> \<not> is_heading_candidate ''plan b2'' 55 0 50 50"
proof -
  have 1: "\<not> spec_rejected (strip ''plan b2'')"
    by (simp add: spec_rejected_def numeric_char_def is_digit_def eval_strip)
  have 2: "(55::rat) \<ge> max (50 * (11 / 10)) (50 * (105 / 100))" by simp
  have 3: "\<not> is_heading_candidate ''plan b2'' 55 0 50 50" by code_simp
  show ?thesis using 1 2 3 by blast
qed

section \<open>Texts of letters and spaces\<close>

lemma strip_last_not_space: "strip t \<noteq> [] \<Longrightarrow> \<not> is_space (last (strip t))"
proof -
  assume a: "strip t \<noteq> []"
  define y where "y = dropWhile is_space (rev (lstrip t))"
  have s: "strip t = rev y" by (simp add: strip_def rstrip_def y_def)
  with a have "y \<noteq> []" by simp
  then have "\<not> is_space (hd y)" unfolding y_def by (rule hd_dropWhile)
  moreover have "last (rev y) = hd y" using \<open>y \<noteq> []\<close> by (simp add: last_rev)
  ultimately show ?thesis using s by simp
qed

lemma head_class_line_match:
  assumes "cs \<noteq> []" and "list_ex (\<lambda>a. atom_ok ic a c) as1"
    and "\<forall>x\<in>set cs. list_ex (\<lambda>a. atom_ok ic a x) as2"
  shows "re_match ic (Seq [Bol, Sym as1, Plus (Sym as2), Eol]) (c # cs)"
proof -
  let ?n = "length (c # cs)"
  obtain d ds where cs: "cs = d # ds" using assms(1) by (cases cs) auto
  have 1: "c # cs \<in> set (rxm ic ?n Bol (c # cs))" by simp
  have 2: "cs \<in> set (rxm ic ?n (Sym as1) (c # cs))" using assms(2) by simp
  have 3: "ds \<in> set (rxm ic ?n (Sym as2) cs)" using assms(3) cs by simp
  have 4: "[] \<in> set (rxm ic ?n (Star (Sym as2)) ds)"
    using rxm_Star_Sym_all[of ds ic as2 "[]" ?n] assms(3) cs by simp
  have 5: "[] \<in> set (rxm ic ?n (Plus (Sym as2)) cs)"
    using 3 4 by (rule rxm_CatI)
  have 6: "[] \<in> set (rxm ic ?n (Seq [Eol]) [])" by simp
  have 7: "[] \<in> set (rxm ic ?n (Seq [Plus (Sym as2), Eol]) cs)"
    unfolding Seq.simps using 5 6 [unfolded Seq.simps] by (rule rxm_CatI)
  have 8: "[] \<in> set (rxm ic ?n (Seq [Sym as1, Plus (Sym as2), Eol]) (c # cs))"
    unfolding Seq.simps using 2 7 [unfolded Seq.simps] by (rule rxm_CatI)
  have "[] \<in> set (rxm ic ?n (Seq [Bol, Sym as1, Plus (Sym as2), Eol]) (c # cs))"
    unfolding Seq.simps using 1 8 [unfolded Seq.simps] by (rule rxm_CatI)
  then show ?thesis unfolding re_match_def by auto
qed

lemma code_char_of: "n < 256 \<Longrightarrow> code (char_of n) = n"
  by (simp add: code_def)

lemma code_AZ: "code (CHR ''A'') = 65" "code (CHR ''Z'') = 90"
  by (simp_all add: code_def)

lemma letter_any_case: "ascii_letter c \<Longrightarrow> atom_ok True upper_AZ c"
proof -
  assume "ascii_letter c"
  then consider (up) "65 \<le> code c \<and> code c \<le> 90" | (lo) "97 \<le> code c \<and> code c \<le> 122"
    unfolding ascii_letter_def by blast
  then show ?thesis
  proof cases
    case up
    then show ?thesis by (simp add: code_AZ)
  next
    case lo
    then have "upper_char c = char_of (code c - 32)" by (simp add: upper_char_def)
    moreover have "code (char_of (code c - 32)) = code c - 32"
      using lo by (intro code_char_of) linarith
    ultimately have "65 \<le> code (upper_char c) \<and> code (upper_char c) \<le> 90"
      using lo by (simp only:) linarith
    then show ?thesis by (simp add: code_AZ)
  qed
qed

lemma letter_not_numeric: "ascii_letter c \<Longrightarrow> \<not> numeric_char c"
  by (auto simp: ascii_letter_def numeric_char_def is_digit_def is_space_def code_def)

lemma letter_not_ending: "ascii_letter c \<Longrightarrow> c \<notin> set ''.!?,;:''"
  by (auto simp: ascii_letter_def code_def)

lemma space_is_space: "is_space (CHR '' '')"
  by (simp add: is_space_def code_def)

lemma letters_all_caps_match:
  assumes "letters_and_spaces s" and "ascii_letter (hd s)" and "3 \<le> length s"
  shows "re_match True all_caps_pattern s"
proof -
  obtain c cs where s: "s = c # cs" using assms(3) by (cases s) auto
  have ne: "cs \<noteq> []" using assms(3) s by auto
  have "ascii_letter c" using assms(2) s by simp
  then have "atom_ok True upper_AZ c" by (rule letter_any_case)
  then have hd: "list_ex (\<lambda>a. atom_ok True a c) [upper_AZ]"
    by (simp only: list_ex_Cons_iff list_ex_Nil_iff simp_thms)
  have tl: "\<forall>x\<in>set cs. list_ex (\<lambda>a. atom_ok True a x) [upper_AZ, Space]"
  proof
    fix x assume "x \<in> set cs"
    then have "ascii_letter x \<or> x = CHR '' ''"
      using assms(1) s by (simp add: letters_and_spaces_def list_all_iff)
    then have "atom_ok True upper_AZ x \<or> atom_ok True Space x"
      using letter_any_case space_is_space by (auto simp only: atom_ok.simps)
    then show "list_ex (\<lambda>a. atom_ok True a x) [upper_AZ, Space]"
      by (simp only: list_ex_Cons_iff list_ex_Nil_iff simp_thms)
  qed
  have "re_match True (Seq [Bol, Sym [upper_AZ], Plus (Sym [upper_AZ, Space]), Eol]) (c # cs)"
    using ne hd tl by (rule head_class_line_match)
  then show ?thesis by (simp only: all_caps_pattern_def s)
qed

lemma letters_not_rejected:
  assumes "letters_and_spaces (strip t)" and "ascii_letter (hd (strip t))"
    and "3 \<le> length (strip t)" and "length (strip t) \<le> 200"
  shows "\<not> rejected (strip t)"
proof -
  let ?s = "strip t"
  have ne: "?s \<noteq> []" using assms(3) by auto
  then have "hd ?s \<in> set ?s" by simp
  then have "\<not> list_all numeric_char ?s"
    using assms(2) letter_not_numeric by (auto simp: list_all_iff)
  moreover have "last ?s \<in> set ?s" using ne by simp
  then have "ascii_letter (last ?s)"
    using assms(1) strip_last_not_space[OF ne] space_is_space
    by (auto simp: letters_and_spaces_def list_all_iff)
  then have "last ?s \<notin> set ''.!?,;:''" by (rule letter_not_ending)
  ultimately show ?thesis using assms(3,4) by (simp add: rejected_iff spec_rejected_def)
qed

lemma is_heading_candidate_pattern:
  "\<not> rejected (strip t) \<Longrightarrow> pattern \<in> set heading_patterns \<Longrightarrow> re_match True pattern (strip t)
   \<Longrightarrow> is_heading_candidate t fsize fflags avg common"
  by (auto simp: is_heading_candidate_def Let_def list_ex_iff)

text \<open>
  Claim C9. A line whose trimmed text consists only of ASCII letters and spaces, begins
  with a letter and has between 3 and 200 characters is a heading candidate whatever its
  font size and style flags and in any letter casing: matched without regard to case,
  the pattern for lines in capitals accepts it.
\<close>

theorem letters_and_spaces_accepted:
  "letters_and_spaces (strip t) \<and> ascii_letter (hd (strip t))
     \<and> 3 \<le> length (strip t) \<and> length (strip t) \<le> 200
   \<longrightarrow> re_match True all_caps_pattern (strip t)
       \<and> is_heading_candidate t fsize fflags avg common"
proof
  assume a: "letters_and_spaces (strip t) \<and> ascii_letter (hd (strip t))
     \<and> 3 \<le> length (strip t) \<and> length (strip t) \<le> 200"
  then have m: "re_match True all_caps_pattern (strip t)"
    by (simp add: letters_all_caps_match)
  have "\<not> rejected (strip t)" using a by (simp add: letters_not_rejected)
  moreover have "all_caps_pattern \<in> set heading_patterns" by (simp add: heading_patterns_def)
  ultimately have "is_heading_candidate t fsize fflags avg common"
    using m by (rule is_heading_candidate_pattern)
  with m show "re_match True all_caps_pattern (strip t)
       \<and> is_heading_candidate t fsize fflags avg common" by simp
qed

text \<open>A sentence in lower case, of size 0 and without flags.\<close>

theorem letters_and_spaces_accepted_witness:
  "letters_and_spaces (strip '' the cat sat on mats '') \<and> ascii_letter (hd (strip '' the cat sat on mats ''))
   \<and> 3 \<le> length (strip '' the cat sat on mats '') \<and> length (strip '' the cat sat on mats '') \<le> 200
   \<and> is_heading_candidate '' the cat sat on mats '' 0 0 12 12"
  using letters_and_spaces_accepted [where t = "'' the cat sat on mats ''" and fsize = 0
      and fflags = 0 and avg = 12 and common = 12]
  by (simp add: letters_and_spaces_def ascii_letter_def eval_strip)

text \<open>Matched with regard to case, the same pattern refuses a sentence in lower case.\<close>

lemma all_caps_case_sensitive_example:
  "\<not> re_match False all_caps_pattern ''the cat sat on mats''
   \<and> re_match True all_caps_pattern ''the cat sat on mats''"
  by code_simp

section \<open>The common font size\<close>

lemma max_by_key_split:
  "\<exists>pre post. m # xs = pre @ max_by_key f m xs # post
     \<and> (\<forall>y\<in>set pre. f y < f (max_by_key f m xs))
     \<and> (\<forall>y\<in>set post. f y \<le> f (max_by_key f m xs))"
proof (induction xs arbitrary: m)
  case Nil
  have "[m] = [] @ max_by_key f m [] # [] \<and> (\<forall>y\<in>set []. f y < f (max_by_key f m []))
     \<and> (\<forall>y\<in>set []. f y \<le> f (max_by_key f m []))" by simp
  then show ?case by blast
next
  case (Cons x xs)
  let ?r = "max_by_key f m (x # xs)"
  show ?case
  proof (cases "f x > f m")
    case True
    then have r: "?r = max_by_key f x xs" by simp
    from Cons.IH[of x] obtain pre post where d: "x # xs = pre @ max_by_key f x xs # post"
      "\<forall>y\<in>set pre. f y < f (max_by_key f x xs)" "\<forall>y\<in>set post. f y \<le> f (max_by_key f x xs)"
      by blast
    have "x \<in> set (pre @ max_by_key f x xs # post)" using d(1) by (metis list.set_intros(1))
    then have "f x \<le> f (max_by_key f x xs)" using d(2,3) by (auto simp: less_imp_le)
    then have "f m < f (max_by_key f x xs)" using True by simp
    then have "m # x # xs = (m # pre) @ ?r # post \<and> (\<forall>y\<in>set (m # pre). f y < f ?r)
        \<and> (\<forall>y\<in>set post. f y \<le> f ?r)"
      using d r by simp
    then show ?thesis by blast
  next
    case False
    then have r: "?r = max_by_key f m xs" by simp
    from Cons.IH[of m] obtain pre post where d: "m # xs = pre @ max_by_key f m xs # post"
      "\<forall>y\<in>set pre. f y < f (max_by_key f m xs)" "\<forall>y\<in>set post. f y \<le> f (max_by_key f m xs)"
      by blast
    show ?thesis
    proof (cases pre)
      case Nil
      then have e: "m # xs = max_by_key f m xs # post" using d(1) by (simp only: append_Nil)
      have "max_by_key f m xs = m" using e by (metis list.inject)
      moreover have "post = xs" using e by (metis list.inject)
      ultimately have "max_by_key f m xs = m" "post = xs" .
      then have "m # x # xs = [] @ ?r # (x # xs) \<and> (\<forall>y\<in>set []. f y < f ?r)
          \<and> (\<forall>y\<in>set (x # xs). f y \<le> f ?r)"
        using d(3) r False by simp
      then show ?thesis by blast
    next
      case (Cons p pre')
      then have e: "m # xs = p # (pre' @ max_by_key f m xs # post)"
        using d(1) by (simp only: append_Cons)
      have p: "p = m" "xs = pre' @ max_by_key f m xs # post"
        using e by (metis list.inject)+
      have "f m < f (max_by_key f m xs)" using d(2) Cons p by simp
      then have "f x < f (max_by_key f m xs)" using False by simp
      then have "m # x # xs = (m # x # pre') @ ?r # post \<and> (\<forall>y\<in>set (m # x # pre'). f y < f ?r)
          \<and> (\<forall>y\<in>set post. f y \<le> f ?r)"
        using d(2,3) Cons p r by auto
      then show ?thesis by blast
    qed
  qed
qed

lemma first_largest_unique:
  fixes f :: "'a \<Rightarrow> 'b::linorder"
  assumes "xs = pre @ r # post" and "\<forall>y\<in>set pre. f y < f r" and "\<forall>y\<in>set post. f y \<le> f r"
  shows "hd (filter (\<lambda>x. \<forall>y\<in>set xs. f y \<le> f x) xs) = r"
proof -
  define P where "P = (\<lambda>x. \<forall>y\<in>set xs. f y \<le> f x)"
  have "\<forall>x\<in>set pre. \<not> P x"
  proof
    fix x assume "x \<in> set pre"
    then have "\<not> f r \<le> f x" using assms(2) by (simp add: not_le)
    moreover have "r \<in> set xs" using assms(1) by simp
    ultimately show "\<not> P x" unfolding P_def by blast
  qed
  then have 1: "filter P pre = []" by (simp add: filter_empty_conv)
  have 2: "P r" unfolding P_def using assms by (auto simp: less_imp_le)
  have "filter P (pre @ r # post) = r # filter P post" using 1 2 by simp
  then have "hd (filter P xs) = r" using assms(1) by simp
  then show ?thesis unfolding P_def .
qed

lemma set_set_items: "set (set_items slot xs) = set xs"
  by (simp add: set_items_def)

lemma set_items_Nil: "set_items slot xs = [] \<longleftrightarrow> xs = []"
  using set_set_items[of slot xs] by (metis set_empty)

lemma common_font_size_split:
  assumes "xs \<noteq> []"
  shows "\<exists>pre post. set_items slot xs = pre @ common_font_size_of slot xs # post
     \<and> (\<forall>y\<in>set pre. count_list xs y < count_list xs (common_font_size_of slot xs))
     \<and> (\<forall>y\<in>set post. count_list xs y \<le> count_list xs (common_font_size_of slot xs))"
proof -
  obtain x rest where i: "set_items slot xs = x # rest"
    using assms set_items_Nil[of slot xs] by (cases "set_items slot xs") auto
  then have "common_font_size_of slot xs = max_by_key (count_list xs) x rest"
    by (simp add: common_font_size_of_def)
  then show ?thesis using max_by_key_split[of x rest "count_list xs"] i by simp
qed

lemma common_font_size_mode:
  assumes "xs \<noteq> []"
  shows "is_mode xs (common_font_size_of slot xs)"
proof -
  from common_font_size_split[OF assms, of slot] obtain pre post where
    d: "set_items slot xs = pre @ common_font_size_of slot xs # post"
      "\<forall>y\<in>set pre. count_list xs y < count_list xs (common_font_size_of slot xs)"
      "\<forall>y\<in>set post. count_list xs y \<le> count_list xs (common_font_size_of slot xs)"
    by blast
  have s: "set xs = set pre \<union> {common_font_size_of slot xs} \<union> set post"
    using set_set_items[of slot xs] d(1) by auto
  show ?thesis unfolding is_mode_def using s d(2,3) by (auto simp: less_imp_le)
qed

lemma common_font_size_first:
  assumes "xs \<noteq> []"
  shows "common_font_size_of slot xs = hd (filter (is_mode xs) (set_items slot xs))"
proof -
  from common_font_size_split[OF assms, of slot] obtain pre post where
    d: "set_items slot xs = pre @ common_font_size_of slot xs # post"
      "\<forall>y\<in>set pre. count_list xs y < count_list xs (common_font_size_of slot xs)"
      "\<forall>y\<in>set post. count_list xs y \<le> count_list xs (common_font_size_of slot xs)"
    by blast
  have "filter (is_mode xs) (set_items slot xs)
        = filter (\<lambda>x. \<forall>y\<in>set (set_items slot xs). count_list xs y \<le> count_list xs x)
            (set_items slot xs)"
    by (rule filter_cong) (auto simp: is_mode_def set_set_items)
  then show ?thesis using first_largest_unique[OF d] by simp
qed

lemma spec_common_size_mode:
  assumes "xs \<noteq> []"
  shows "is_mode xs (spec_common_size xs)"
proof -
  have "common_font_size_of (\<lambda>x. 0) xs \<in> set (filter (is_mode xs) xs)"
    using common_font_size_mode[OF assms, of "\<lambda>x. 0"] by (simp add: is_mode_def)
  then have "filter (is_mode xs) xs \<noteq> []" by (metis empty_iff empty_set)
  then have "hd (filter (is_mode xs) xs) \<in> set (filter (is_mode xs) xs)" by (rule hd_in_set)
  then show ?thesis using assms by (simp add: spec_common_size_def)
qed

text \<open>
  Claim C3, amended. For a non-empty list of font sizes the common font size is a
  statistical mode: a value of the list that no value of the list exceeds in frequency.
  Among several values of highest frequency it is the one met first when the set of
  distinct sizes is enumerated, which need not be the one met first in the input; when
  only one value has the highest frequency it is the value the specification names.
\<close>

theorem common_size_is_a_mode:
  "xs \<noteq> [] \<longrightarrow>
     is_mode xs (common_font_size_of slot xs)
     \<and> common_font_size_of slot xs = hd (filter (is_mode xs) (set_items slot xs))
     \<and> ((\<forall>x y. is_mode xs x \<and> is_mode xs y \<longrightarrow> x = y)
          \<longrightarrow> common_font_size_of slot xs = spec_common_size xs)"
proof
  assume ne: "xs \<noteq> []"
  have 1: "is_mode xs (common_font_size_of slot xs)" using ne by (rule common_font_size_mode)
  have 2: "common_font_size_of slot xs = hd (filter (is_mode xs) (set_items slot xs))"
    using ne by (rule common_font_size_first)
  have 3: "is_mode xs (spec_common_size xs)" using ne by (rule spec_common_size_mode)
  show "is_mode xs (common_font_size_of slot xs)
     \<and> common_font_size_of slot xs = hd (filter (is_mode xs) (set_items slot xs))
     \<and> ((\<forall>x y. is_mode xs x \<and> is_mode xs y \<longrightarrow> x = y)
          \<longrightarrow> common_font_size_of slot xs = spec_common_size xs)"
    using 1 2 3 by blast
qed

text \<open>Four lines of sizes 12, 10, 10 and 14: the common size is 10.\<close>

theorem common_size_is_a_mode_witness:
  "[12, 10, 10, 14] \<noteq> ([] :: rat list) \<and> is_mode [12, 10, 10, 14] (common_font_size_of small_table_slot [12, 10, 10, 14])
   \<and> common_font_size_of small_table_slot [12, 10, 10, 14] = 10"
proof -
  have "set_items small_table_slot [12, 10, 10, 14] = [10, 12, 14]"
    by (simp add: set_items_def small_table_slot_def)
  then have c: "common_font_size_of small_table_slot [12, 10, 10, 14] = 10"
    by (simp add: common_font_size_of_def)
  have ne: "[12, 10, 10, 14] \<noteq> ([] :: rat list)" by simp
  then have "is_mode [12, 10, 10, 14] (common_font_size_of small_table_slot [12, 10, 10, 14])"
    using common_size_is_a_mode [of "[12, 10, 10, 14]" small_table_slot] by blast
  then show ?thesis using c ne by blast
qed

text \<open>
  Claim C3 as the specification words it (ties go to the value met first in the input)
  fails for the sizes 12, 10: both occur once, CPython enumerates the set as 10, 12, and
  the program answers 10 where the specification names 12.
\<close>

theorem common_size_tie_counterexample:
  "common_font_size_of small_table_slot [12, 10] = 10 \<and> spec_common_size [12, 10] = 12"
proof (rule conjI)
  have "set_items small_table_slot [12, 10] = [10, 12]"
    by (simp add: set_items_def small_table_slot_def)
  then show "common_font_size_of small_table_slot [12, 10] = 10"
    by (simp add: common_font_size_of_def)
  have "filter (is_mode [12, 10]) [12, 10] = [12, 10]"
    by (simp add: is_mode_def)
  then show "spec_common_size [12, 10] = 12"
    by (simp only: spec_common_size_def) simp
qed

section \<open>A corpus of size zero throughout\<close>

text \<open>The mean of the sizes 10, 11 and 12.5 is the double 11.166666666666666, not 67/6.\<close>

lemma avg_rounds_example:
  "avg_font_size_of [10, 11, 25 / 2] = 6286274479871317 / 562949953421312"
  by code_simp

lemma fmul_zero: "fmul 0 b = 0"
  by (simp add: fmul_def to_double_def)

lemma avg_all_zero: "\<forall>x\<in>set fs. x = 0 \<Longrightarrow> fs \<noteq> [] \<Longrightarrow> avg_font_size_of fs = 0"
proof -
  assume a: "\<forall>x\<in>set fs. x = 0" and ne: "fs \<noteq> []"
  from a have "fold (\<lambda>x s. fadd s x) fs 0 = 0"
    by (induction fs) (simp_all add: fadd_def to_double_def)
  then show ?thesis using ne by (simp add: avg_font_size_of_def fsum_def fdiv_def to_double_def)
qed

lemma common_all_zero:
  "\<forall>x\<in>set fs. x = 0 \<Longrightarrow> fs \<noteq> [] \<Longrightarrow> common_font_size_of slot fs = 0"
  using common_font_size_mode[of fs slot] by (simp add: is_mode_def)

lemma find_headings_filter:
  assumes "\<forall>i\<in>set infos. \<not> rejected (strip (info_text i)) \<longrightarrow>
             info_font_size i \<ge> max (fmul avg lit_1_1) (fmul common lit_1_05)"
  shows "find_headings avg common infos
         = map to_heading (filter (\<lambda>i. \<not> rejected (strip (info_text i))) infos)"
proof -
  have "filter (\<lambda>info. is_heading_candidate (info_text info) (info_font_size info)
                         (info_font_flags info) avg common) infos
        = filter (\<lambda>i. \<not> rejected (strip (info_text i))) infos"
  proof (rule filter_cong[OF refl])
    fix i assume "i \<in> set infos"
    then show "is_heading_candidate (info_text i) (info_font_size i) (info_font_flags i) avg common
               = (\<not> rejected (strip (info_text i)))"
      using assms is_heading_candidate_rejected is_heading_candidate_size by blast
  qed
  then show ?thesis by (simp add: find_headings_def)
qed

text \<open>
  Claim C10. When every collected line has font size 0, the average and the common font
  size are both 0, the size threshold \<open>max (0 * 1.1) (0 * 1.05)\<close> is 0, and the size rule
  accepts every line that passes the reject filters: the headings found are exactly the
  lines the reject filters let through.
\<close>

theorem zero_sizes_accept_all:
  "infos \<noteq> [] \<and> (\<forall>i\<in>set infos. info_font_size i = 0) \<longrightarrow>
     avg_font_size_of (map info_font_size infos) = 0
     \<and> common_font_size_of slot (map info_font_size infos) = 0
     \<and> max (fmul (avg_font_size_of (map info_font_size infos)) lit_1_1)
            (fmul (common_font_size_of slot (map info_font_size infos)) lit_1_05) = 0
     \<and> find_headings (avg_font_size_of (map info_font_size infos))
          (common_font_size_of slot (map info_font_size infos)) infos
        = map to_heading (filter (\<lambda>i. \<not> spec_rejected (strip (info_text i))) infos)"
proof
  assume a: "infos \<noteq> [] \<and> (\<forall>i\<in>set infos. info_font_size i = 0)"
  let ?fs = "map info_font_size infos"
  have z: "\<forall>x\<in>set ?fs. x = 0" and ne: "?fs \<noteq> []" using a by auto
  have avg: "avg_font_size_of ?fs = 0" using z ne by (rule avg_all_zero)
  have com: "common_font_size_of slot ?fs = 0" using z ne by (rule common_all_zero)
  have "find_headings 0 0 infos
        = map to_heading (filter (\<lambda>i. \<not> rejected (strip (info_text i))) infos)"
    using a by (intro find_headings_filter) (simp add: fmul_zero)
  then show "avg_font_size_of ?fs = 0 \<and> common_font_size_of slot ?fs = 0
     \<and> max (fmul (avg_font_size_of ?fs) lit_1_1) (fmul (common_font_size_of slot ?fs) lit_1_05) = 0
     \<and> find_headings (avg_font_size_of ?fs) (common_font_size_of slot ?fs) infos
        = map to_heading (filter (\<lambda>i. \<not> spec_rejected (strip (info_text i))) infos)"
    by (simp add: avg com rejected_iff fmul_zero)
qed

text \<open>Two lines of size 0: the first is accepted, the second is rejected as numeric.\<close>

theorem zero_sizes_accept_all_witness:
  "[\<lparr>info_text = ''my plan'', info_font_size = 0, info_font_flags = 0, info_page = 1\<rparr>,
    \<lparr>info_text = ''(12)'', info_font_size = 0, info_font_flags = 0, info_page = 1\<rparr>] \<noteq> []
   \<and> find_headings 0 0
         [\<lparr>info_text = ''my plan'', info_font_size = 0, info_font_flags = 0, info_page = 1\<rparr>,
          \<lparr>info_text = ''(12)'', info_font_size = 0, info_font_flags = 0, info_page = 1\<rparr>]
       = [\<lparr>level = [], text = ''my plan'', page = 1, font_size = 0, font_flags = 0\<rparr>]"
proof -
  let ?infos = "[\<lparr>info_text = ''my plan'', info_font_size = 0, info_font_flags = 0, info_page = 1\<rparr>,
    \<lparr>info_text = ''(12)'', info_font_size = 0, info_font_flags = 0, info_page = 1\<rparr>]"
  let ?fs = "map info_font_size ?infos"
  have h: "?infos \<noteq> [] \<and> (\<forall>i\<in>set ?infos. info_font_size i = 0)" by simp
  have avg: "avg_font_size_of ?fs = 0"
    and com: "common_font_size_of small_table_slot ?fs = 0"
    and fh: "find_headings (avg_font_size_of ?fs) (common_font_size_of small_table_slot ?fs) ?infos
        = map to_heading (filter (\<lambda>i. \<not> spec_rejected (strip (info_text i))) ?infos)"
    using zero_sizes_accept_all [of ?infos small_table_slot] h by blast+
  have "map to_heading (filter (\<lambda>i. \<not> spec_rejected (strip (info_text i))) ?infos)
        = [\<lparr>level = [], text = ''my plan'', page = 1, font_size = 0, font_flags = 0\<rparr>]"
    by (simp add: spec_rejected_def numeric_char_def is_digit_def eval_strip to_heading_def)
  then show ?thesis using fh unfolding avg com by simp
qed

section \<open>Heading levels\<close>

declare str_nat.simps [simp del]

lemma level_names:
  "''H'' @ str_nat (0 + 1) = ''H1''" "''H'' @ str_nat (Suc 0 + 1) = ''H2''"
  "''H'' @ str_nat (Suc (Suc 0) + 1) = ''H3''"
  by code_simp+

lemma size_to_level_0: "size_to_level_of [] = Map.empty"
  by (simp add: size_to_level_of_def)

lemma size_to_level_1: "size_to_level_of [a] = [a \<mapsto> ''H1'']"
  using level_names by (simp add: size_to_level_of_def del: One_nat_def add_Suc add_0 Nat.add_0_right add_Suc_right)

lemma size_to_level_2: "size_to_level_of [a, b] = [a \<mapsto> ''H1'', b \<mapsto> ''H2'']"
  using level_names by (simp add: size_to_level_of_def del: One_nat_def add_Suc add_0 Nat.add_0_right add_Suc_right)

lemma size_to_level_3:
  "size_to_level_of (a # b # c # rest) = [a \<mapsto> ''H1'', b \<mapsto> ''H2'', c \<mapsto> ''H3'']"
  using level_names by (simp add: size_to_level_of_def del: One_nat_def add_Suc add_0 Nat.add_0_right add_Suc_right)

lemma size_to_level_cases:
  assumes "distinct us"
  shows "(0 < length us \<longrightarrow> size_to_level_of us (us ! 0) = Some ''H1'')
       \<and> (1 < length us \<longrightarrow> size_to_level_of us (us ! 1) = Some ''H2'')
       \<and> (2 < length us \<longrightarrow> size_to_level_of us (us ! 2) = Some ''H3'')
       \<and> (\<forall>x. x \<notin> set (take 3 us) \<longrightarrow> size_to_level_of us x = None)
       \<and> (\<forall>x l. size_to_level_of us x = Some l \<longrightarrow> l \<in> {''H1'', ''H2'', ''H3''})"
proof (cases us)
  case Nil
  then show ?thesis by (simp add: size_to_level_0)
next
  case (Cons a us1)
  note c1 = Cons
  show ?thesis
  proof (cases us1)
    case Nil
    then show ?thesis using c1 by (simp add: size_to_level_1)
  next
    case (Cons b us2)
    note c2 = Cons
    show ?thesis
    proof (cases us2)
      case Nil
      then show ?thesis using c1 c2 assms by (auto simp: size_to_level_2)
    next
      case (Cons c rest)
      then show ?thesis using c1 c2 assms by (auto simp: size_to_level_3)
    qed
  qed
qed

lemma determine_heading_level_sizes:
  "map font_size hs' = map font_size hs \<Longrightarrow> font_size h' = font_size h
   \<Longrightarrow> determine_heading_level h' hs' = determine_heading_level h hs"
  by (simp add: determine_heading_level_def)

lemma assign_levels_prefix:
  "k \<le> length hs \<Longrightarrow>
   fold (\<lambda>i hs'. hs'[i := (hs' ! i)\<lparr>level := determine_heading_level (hs' ! i) hs'\<rparr>]) [0 ..< k] hs
   = map (\<lambda>h. h\<lparr>level := determine_heading_level h hs\<rparr>) (take k hs) @ drop k hs"
proof (induction k)
  case 0
  show ?case by simp
next
  case (Suc k)
  let ?upd = "\<lambda>h. h\<lparr>level := determine_heading_level h hs\<rparr>"
  let ?st = "map ?upd (take k hs) @ drop k hs"
  have k: "k < length hs" using Suc.prems by simp
  have len: "length (map ?upd (take k hs)) = k" using k by simp
  have dr: "drop k hs = hs ! k # drop (Suc k) hs" using k by (simp add: Cons_nth_drop_Suc)
  have nth: "?st ! k = hs ! k" using len dr by (simp add: nth_append)
  have "map font_size ?st = map font_size (take k hs) @ map font_size (drop k hs)"
    by (simp add: comp_def)
  also have "\<dots> = map font_size (take k hs @ drop k hs)" by (simp only: map_append)
  also have "\<dots> = map font_size hs" by (simp only: append_take_drop_id)
  finally have sizes: "map font_size ?st = map font_size hs" .
  have lev: "determine_heading_level (hs ! k) ?st = determine_heading_level (hs ! k) hs"
    using sizes by (rule determine_heading_level_sizes) simp
  have "?st[k := ?upd (hs ! k)] = map ?upd (take k hs) @ (drop k hs)[0 := ?upd (hs ! k)]"
    using len by (simp add: list_update_append)
  also have "\<dots> = map ?upd (take k hs) @ ?upd (hs ! k) # drop (Suc k) hs"
    by (subst dr) simp
  also have "\<dots> = map ?upd (take (Suc k) hs) @ drop (Suc k) hs"
    using k by (simp add: take_Suc_conv_app_nth)
  finally have step: "?st[k := (?st ! k)\<lparr>level := determine_heading_level (?st ! k) ?st\<rparr>]
      = map ?upd (take (Suc k) hs) @ drop (Suc k) hs"
    by (simp only: nth lev)
  have "fold (\<lambda>i hs'. hs'[i := (hs' ! i)\<lparr>level := determine_heading_level (hs' ! i) hs'\<rparr>])
          [0 ..< Suc k] hs
        = ?st[k := (?st ! k)\<lparr>level := determine_heading_level (?st ! k) ?st\<rparr>]"
    using Suc.IH k by simp
  then show ?case using step by simp
qed

lemma assign_levels_map:
  "assign_levels hs = map (\<lambda>h. h\<lparr>level := determine_heading_level h hs\<rparr>) hs"
  using assign_levels_prefix[of "length hs" hs] by (simp add: assign_levels_def)

section \<open>The outline resolver\<close>

lemma first_occurrences_snoc:
  "first_occurrences (xs @ [x])
   = first_occurrences xs @ (if text x \<notin> set (map text xs) then [x] else [])"
proof -
  let ?P = "\<lambda>ys i. text (ys ! i) \<notin> set (map text (take i ys))"
  have f: "filter (?P (xs @ [x])) [0 ..< length xs] = filter (?P xs) [0 ..< length xs]"
    by (rule filter_cong) (auto simp: nth_append)
  have m: "map (\<lambda>i. (xs @ [x]) ! i) (filter (?P xs) [0 ..< length xs])
           = map (\<lambda>i. xs ! i) (filter (?P xs) [0 ..< length xs])"
    by (rule map_cong) (auto simp: nth_append)
  have "first_occurrences (xs @ [x])
        = map (\<lambda>i. (xs @ [x]) ! i) (filter (?P (xs @ [x])) ([0 ..< length xs] @ [length xs]))"
    by (simp add: first_occurrences_def)
  also have "\<dots> = map (\<lambda>i. (xs @ [x]) ! i) (filter (?P xs) [0 ..< length xs])
        @ (if text x \<notin> set (map text xs) then [x] else [])"
    unfolding filter_append f by simp
  finally show ?thesis unfolding m by (simp add: first_occurrences_def)
qed

lemma first_occurrences_Nil: "first_occurrences [] = []"
  by (simp add: first_occurrences_def)

lemma fold_unique_step:
  "fold unique_step xs ({}, []) = (set (map text xs), first_occurrences xs)"
proof (induction xs rule: rev_induct)
  case Nil
  show ?case by (simp add: first_occurrences_Nil)
next
  case (snoc x xs)
  have "fold unique_step (xs @ [x]) ({}, [])
        = unique_step x (set (map text xs), first_occurrences xs)"
    by (simp add: snoc)
  also have "\<dots> = (set (map text (xs @ [x])), first_occurrences (xs @ [x]))"
    by (simp add: unique_step_def first_occurrences_snoc insert_absorb)
  finally show ?case .
qed

lemma unique_headings_first: "unique_headings_of hs = first_occurrences (sort_headings hs)"
  by (simp add: unique_headings_of_def fold_unique_step)

lemma set_first_occurrences: "set (first_occurrences xs) \<subseteq> set xs"
  by (auto simp: first_occurrences_def)

lemma texts_first_occurrences: "set (map text (first_occurrences xs)) = set (map text xs)"
  by (induction xs rule: rev_induct) (auto simp: first_occurrences_Nil first_occurrences_snoc)

lemma distinct_first_occurrences: "distinct (map text (first_occurrences xs))"
proof (induction xs rule: rev_induct)
  case Nil
  show ?case by (simp add: first_occurrences_Nil)
next
  case (snoc x xs)
  then show ?case using texts_first_occurrences[of xs]
    by (simp add: first_occurrences_snoc)
qed

lemma set_sort_headings: "set (sort_headings hs) = set hs"
  by (simp add: sort_headings_def)

lemma set_unique_headings: "set (unique_headings_of hs) \<subseteq> set hs"
  using set_first_occurrences[of "sort_headings hs"]
  by (simp add: unique_headings_first set_sort_headings)

lemma resolve_outline_texts: "distinct (map entry_text (resolve_outline hs))"
proof -
  have "map entry_text (resolve_outline hs) = map text (unique_headings_of hs)"
    by (simp add: resolve_outline_def to_entry_def comp_def)
  then show ?thesis by (simp add: unique_headings_first distinct_first_occurrences)
qed

lemma unique_sizes_desc:
  "sorted_wrt (>) (rev (sorted_list_of_set (set (xs :: rat list))))
   \<and> set (rev (sorted_list_of_set (set xs))) = set xs"
  by (simp add: sorted_wrt_rev)

lemma determine_heading_level_cases:
  fixes h :: heading and all_headings :: "heading list"
  defines "us \<equiv> rev (sorted_list_of_set (set (map font_size all_headings)))"
  shows "(0 < length us \<and> font_size h = us ! 0 \<longrightarrow> determine_heading_level h all_headings = ''H1'')
     \<and> (1 < length us \<and> font_size h = us ! 1 \<longrightarrow> determine_heading_level h all_headings = ''H2'')
     \<and> (2 < length us \<and> font_size h = us ! 2 \<longrightarrow> determine_heading_level h all_headings = ''H3'')
     \<and> (font_size h \<notin> set (take 3 us) \<longrightarrow> determine_heading_level h all_headings = ''H3'')
     \<and> determine_heading_level h all_headings \<in> {''H1'', ''H2'', ''H3''}"
proof -
  have d: "distinct us" unfolding us_def by simp
  have l: "determine_heading_level h all_headings
           = (case size_to_level_of us (font_size h) of Some l \<Rightarrow> l | None \<Rightarrow> ''H3'')"
    by (simp add: determine_heading_level_def us_def)
  note c = size_to_level_cases[OF d]
  have 1: "0 < length us \<and> font_size h = us ! 0 \<longrightarrow> determine_heading_level h all_headings = ''H1''"
    using c l by simp
  have 2: "1 < length us \<and> font_size h = us ! 1 \<longrightarrow> determine_heading_level h all_headings = ''H2''"
    using c l by simp
  have 3: "2 < length us \<and> font_size h = us ! 2 \<longrightarrow> determine_heading_level h all_headings = ''H3''"
    using c l by simp
  have 4: "font_size h \<notin> set (take 3 us) \<longrightarrow> determine_heading_level h all_headings = ''H3''"
    using c l by simp
  have 5: "determine_heading_level h all_headings \<in> {''H1'', ''H2'', ''H3''}"
  proof (cases "size_to_level_of us (font_size h)")
    case None
    then show ?thesis using l by simp
  next
    case (Some a)
    then have "a \<in> {''H1'', ''H2'', ''H3''}" using c by blast
    then show ?thesis using l Some by simp
  qed
  show ?thesis using 1 2 3 4 5 by blast
qed

lemma outline_levels:
  "\<forall>e\<in>set (outline (extract_outline slot doc)). entry_level e \<in> {''H1'', ''H2'', ''H3''}"
proof
  fix e assume "e \<in> set (outline (extract_outline slot doc))"
  then obtain hs h where e: "e = to_entry h" and h: "h \<in> set (unique_headings_of (assign_levels hs))"
    by (auto simp: extract_outline_def Let_def resolve_outline_def)
  then have "h \<in> set (assign_levels hs)" using set_unique_headings by blast
  then obtain g where "h = g\<lparr>level := determine_heading_level g hs\<rparr>"
    by (auto simp: assign_levels_map)
  then have "level h = determine_heading_level g hs" by simp
  then have "level h \<in> {''H1'', ''H2'', ''H3''}"
    using determine_heading_level_cases[where h = g and all_headings = hs] by simp
  then show "entry_level e \<in> {''H1'', ''H2'', ''H3''}" using e by (simp add: to_entry_def)
qed

text \<open>
  Claim C5. Over the distinct font sizes of all heading candidates in descending order,
  a candidate of the largest size gets H1, of the second largest H2, of the third
  largest H3, and a candidate whose size is not among the three largest gets H3. So
  every assigned level, and the level of every outline entry, is H1, H2 or H3.
\<close>

theorem heading_levels_by_size:
  "(let us = rev (sorted_list_of_set (set (map font_size all_headings))) in
      sorted_wrt (>) us \<and> set us = set (map font_size all_headings)
      \<and> (0 < length us \<and> font_size h = us ! 0 \<longrightarrow> determine_heading_level h all_headings = ''H1'')
      \<and> (1 < length us \<and> font_size h = us ! 1 \<longrightarrow> determine_heading_level h all_headings = ''H2'')
      \<and> (2 < length us \<and> font_size h = us ! 2 \<longrightarrow> determine_heading_level h all_headings = ''H3'')
      \<and> (font_size h \<notin> set (take 3 us) \<longrightarrow> determine_heading_level h all_headings = ''H3''))
   \<and> determine_heading_level h all_headings \<in> {''H1'', ''H2'', ''H3''}
   \<and> assign_levels all_headings
       = map (\<lambda>g. g\<lparr>level := determine_heading_level g all_headings\<rparr>) all_headings
   \<and> (\<forall>e\<in>set (outline (extract_outline slot doc)). entry_level e \<in> {''H1'', ''H2'', ''H3''})"
  unfolding Let_def
  using unique_sizes_desc[of "map font_size all_headings"]
    determine_heading_level_cases[where h = h and all_headings = all_headings]
    assign_levels_map[of all_headings] outline_levels[of slot doc]
  by blast

text \<open>Four candidates of sizes 12, 20, 14 and 16: levels H3, H1, H3 and H2.\<close>

theorem heading_levels_by_size_witness:
  "determine_heading_level \<lparr>level = [], text = ''Scope'', page = 1, font_size = 20, font_flags = 0\<rparr>
      [\<lparr>level = [], text = ''Notes'', page = 1, font_size = 12, font_flags = 0\<rparr>,
       \<lparr>level = [], text = ''Scope'', page = 1, font_size = 20, font_flags = 0\<rparr>,
       \<lparr>level = [], text = ''Terms'', page = 2, font_size = 14, font_flags = 0\<rparr>,
       \<lparr>level = [], text = ''Goals'', page = 2, font_size = 16, font_flags = 0\<rparr>] = ''H1''
   \<and> determine_heading_level \<lparr>level = [], text = ''Goals'', page = 2, font_size = 16, font_flags = 0\<rparr>
      [\<lparr>level = [], text = ''Notes'', page = 1, font_size = 12, font_flags = 0\<rparr>,
       \<lparr>level = [], text = ''Scope'', page = 1, font_size = 20, font_flags = 0\<rparr>,
       \<lparr>level = [], text = ''Terms'', page = 2, font_size = 14, font_flags = 0\<rparr>,
       \<lparr>level = [], text = ''Goals'', page = 2, font_size = 16, font_flags = 0\<rparr>] = ''H2''
   \<and> determine_heading_level \<lparr>level = [], text = ''Terms'', page = 2, font_size = 14, font_flags = 0\<rparr>
      [\<lparr>level = [], text = ''Notes'', page = 1, font_size = 12, font_flags = 0\<rparr>,
       \<lparr>level = [], text = ''Scope'', page = 1, font_size = 20, font_flags = 0\<rparr>,
       \<lparr>level = [], text = ''Terms'', page = 2, font_size = 14, font_flags = 0\<rparr>,
       \<lparr>level = [], text = ''Goals'', page = 2, font_size = 16, font_flags = 0\<rparr>] = ''H3''
   \<and> determine_heading_level \<lparr>level = [], text = ''Notes'', page = 1, font_size = 12, font_flags = 0\<rparr>
      [\<lparr>level = [], text = ''Notes'', page = 1, font_size = 12, font_flags = 0\<rparr>,
       \<lparr>level = [], text = ''Scope'', page = 1, font_size = 20, font_flags = 0\<rparr>,
       \<lparr>level = [], text = ''Terms'', page = 2, font_size = 14, font_flags = 0\<rparr>,
       \<lparr>level = [], text = ''Goals'', page = 2, font_size = 16, font_flags = 0\<rparr>] = ''H3''"
proof -
  let ?all = "[\<lparr>level = [], text = ''Notes'', page = 1, font_size = 12, font_flags = 0\<rparr>,
       \<lparr>level = [], text = ''Scope'', page = 1, font_size = 20, font_flags = 0\<rparr>,
       \<lparr>level = [], text = ''Terms'', page = 2, font_size = 14, font_flags = 0\<rparr>,
       \<lparr>level = [], text = ''Goals'', page = 2, font_size = 16, font_flags = 0\<rparr>]"
  have us: "rev (sorted_list_of_set (set (map font_size ?all))) = [20, 16, 14, 12]"
    by (simp add: sorted_list_of_set_sort_remdups)
  show ?thesis
    using heading_levels_by_size [where all_headings = ?all
        and h = "\<lparr>level = [], text = ''Scope'', page = 1, font_size = 20, font_flags = 0\<rparr>"]
      heading_levels_by_size [where all_headings = ?all
        and h = "\<lparr>level = [], text = ''Goals'', page = 2, font_size = 16, font_flags = 0\<rparr>"]
      heading_levels_by_size [where all_headings = ?all
        and h = "\<lparr>level = [], text = ''Terms'', page = 2, font_size = 14, font_flags = 0\<rparr>"]
      heading_levels_by_size [where all_headings = ?all
        and h = "\<lparr>level = [], text = ''Notes'', page = 1, font_size = 12, font_flags = 0\<rparr>"]
    unfolding Let_def us by simp
qed

lemma sort_headings_stable:
  "sorted (map (\<lambda>h. (page h, font_size h)) (sort_headings hs))
   \<and> mset (sort_headings hs) = mset hs
   \<and> (\<forall>k. filter (\<lambda>h. (page h, font_size h) = k) (sort_headings hs)
            = filter (\<lambda>h. (page h, font_size h) = k) hs)"
  by (simp add: sort_headings_def sort_key_stable)

lemma outline_texts: "distinct (map entry_text (outline (extract_outline slot doc)))"
  by (simp add: extract_outline_def Let_def resolve_outline_texts)

lemma intro_example:
  "resolve_outline (assign_levels
      [\<lparr>level = [], text = ''Intro'', page = 3, font_size = 16, font_flags = 0\<rparr>,
       \<lparr>level = [], text = ''Intro'', page = 1, font_size = 20, font_flags = 0\<rparr>])
   = [\<lparr>entry_level = ''H1'', entry_text = ''Intro'', entry_page = 1\<rparr>]"
proof -
  let ?a = "\<lparr>level = [], text = ''Intro'', page = 3, font_size = 16, font_flags = 0\<rparr>"
  let ?b = "\<lparr>level = [], text = ''Intro'', page = 1, font_size = 20, font_flags = 0\<rparr>"
  have us: "rev (sorted_list_of_set (set (map font_size [?a, ?b]))) = [20, 16]"
    by (simp add: sorted_list_of_set_sort_remdups)
  have a: "determine_heading_level ?a [?a, ?b] = ''H2''"
    by (simp add: determine_heading_level_def us size_to_level_2)
  have b: "determine_heading_level ?b [?a, ?b] = ''H1''"
    by (simp add: determine_heading_level_def us size_to_level_2)
  have l: "assign_levels [?a, ?b] = [?a\<lparr>level := ''H2''\<rparr>, ?b\<lparr>level := ''H1''\<rparr>]"
    by (simp only: assign_levels_map list.map a b)
  have s: "sort_headings [?a\<lparr>level := ''H2''\<rparr>, ?b\<lparr>level := ''H1''\<rparr>]
           = [?b\<lparr>level := ''H1''\<rparr>, ?a\<lparr>level := ''H2''\<rparr>]"
    by (simp add: sort_headings_def)
  show ?thesis
    unfolding l resolve_outline_def unique_headings_of_def s
    by (simp add: unique_step_def to_entry_def)
qed

text \<open>
  Claim C6. The outline resolver sorts the levelled candidates by page and then font
  size, both ascending, keeping the input order of candidates with equal keys, and then
  keeps exactly the candidates whose text no earlier candidate of the sorted list has.
  For the candidates \<^verbatim>\<open>Intro\<close> on page 3 with size 16 and \<^verbatim>\<open>Intro\<close> on page 1 with size 20
  the entries are the page-1 item alone. No two entries of an outline have the same text.
\<close>

theorem outline_sorted_and_unique:
  "(let s = sort_headings hs in
      sorted (map (\<lambda>h. (page h, font_size h)) s) \<and> mset s = mset hs
      \<and> (\<forall>k. filter (\<lambda>h. (page h, font_size h) = k) s
               = filter (\<lambda>h. (page h, font_size h) = k) hs)
      \<and> unique_headings_of hs = first_occurrences s)
   \<and> resolve_outline hs = map to_entry (unique_headings_of hs)
   \<and> distinct (map entry_text (resolve_outline hs))
   \<and> resolve_outline (assign_levels
        [\<lparr>level = [], text = ''Intro'', page = 3, font_size = 16, font_flags = 0\<rparr>,
         \<lparr>level = [], text = ''Intro'', page = 1, font_size = 20, font_flags = 0\<rparr>])
      = [\<lparr>entry_level = ''H1'', entry_text = ''Intro'', entry_page = 1\<rparr>]
   \<and> distinct (map entry_text (outline (extract_outline slot doc)))"
  unfolding Let_def
  using sort_headings_stable[of hs] unique_headings_first[of hs] resolve_outline_texts[of hs]
    intro_example outline_texts[of slot doc]
  by (simp add: resolve_outline_def)

section \<open>The page cap\<close>

lemma collect_line_page: "i \<in> set (collect_line page_num spans) \<Longrightarrow> info_page i = page_num + 1"
  by (auto simp: collect_line_def split: prod.splits if_splits)

lemma collect_block_page: "i \<in> set (collect_block page_num b) \<Longrightarrow> info_page i = page_num + 1"
  by (auto simp: collect_block_def split: option.splits dest: collect_line_page)

lemma collect_text_info_pages:
  "i \<in> set (collect_text_info doc) \<Longrightarrow>
   1 \<le> info_page i \<and> info_page i \<le> min (length (pages doc)) 50"
proof -
  assume "i \<in> set (collect_text_info doc)"
  then obtain page_num b where "page_num < min (length (pages doc)) 50"
    and "i \<in> set (collect_block page_num b)"
    by (auto simp: collect_text_info_def)
  then show ?thesis using collect_block_page[of i page_num b] by simp
qed

lemma collect_text_info_take:
  "collect_text_info (doc\<lparr>pages := take 50 (pages doc)\<rparr>) = collect_text_info doc"
proof -
  have m: "map (\<lambda>page_num. concat (map (collect_block page_num) (take 50 (pages doc) ! page_num)))
          [0 ..< min (length (pages doc)) 50]
        = map (\<lambda>page_num. concat (map (collect_block page_num) (pages doc ! page_num)))
          [0 ..< min (length (pages doc)) 50]"
    by (rule map_cong) simp_all
  have l: "min (length (take 50 (pages doc))) 50 = min (length (pages doc)) 50" by simp
  have p: "pages (doc\<lparr>pages := take 50 (pages doc)\<rparr>) = take 50 (pages doc)" by simp
  show ?thesis unfolding collect_text_info_def p l m ..
qed

lemma extract_title_take:
  "extract_title_from_document (doc\<lparr>pages := take 50 (pages doc)\<rparr>)
   = extract_title_from_document doc"
  by (cases "pages doc") (simp_all add: extract_title_from_document_def)

lemma extract_outline_take:
  "extract_outline slot (doc\<lparr>pages := take 50 (pages doc)\<rparr>) = extract_outline slot doc"
  by (simp only: extract_outline_def collect_text_info_take extract_title_take)

lemma outline_from_text_info:
  assumes "e \<in> set (outline (extract_outline slot doc))"
  shows "\<exists>i\<in>set (collect_text_info doc). entry_page e = info_page i \<and> entry_text e = info_text i"
proof -
  let ?infos = "collect_text_info doc"
  let ?fs = "map info_font_size ?infos"
  let ?hs = "find_headings (avg_font_size_of ?fs) (common_font_size_of slot ?fs) ?infos"
  from assms obtain h where e: "e = to_entry h" and "h \<in> set (unique_headings_of (assign_levels ?hs))"
    by (auto simp: extract_outline_def Let_def resolve_outline_def)
  then have "h \<in> set (assign_levels ?hs)" using set_unique_headings by blast
  then obtain g where g: "g \<in> set ?hs" and h: "h = g\<lparr>level := determine_heading_level g ?hs\<rparr>"
    by (auto simp: assign_levels_map)
  from g obtain i where "i \<in> set ?infos" and "g = to_heading i"
    by (auto simp: find_headings_def)
  then have "i \<in> set ?infos \<and> entry_page e = info_page i \<and> entry_text e = info_text i"
    using e h by (simp add: to_entry_def to_heading_def)
  then show ?thesis by blast
qed

text \<open>
  Claim C7. Only the first \<open>min N 50\<close> pages of a document of \<open>N\<close> pages contribute
  lines: the result is that of the document cut to its first 50 pages, and every
  collected line and every outline entry has a page number between 1 and \<open>min N 50\<close>.
\<close>

theorem page_bound:
  "(\<forall>e\<in>set (outline (extract_outline slot doc)).
       1 \<le> entry_page e \<and> entry_page e \<le> min (length (pages doc)) 50)
   \<and> (\<forall>i\<in>set (collect_text_info doc).
       1 \<le> info_page i \<and> info_page i \<le> min (length (pages doc)) 50)
   \<and> collect_text_info (doc\<lparr>pages := take 50 (pages doc)\<rparr>) = collect_text_info doc
   \<and> extract_outline slot (doc\<lparr>pages := take 50 (pages doc)\<rparr>) = extract_outline slot doc"
proof -
  have "\<forall>e\<in>set (outline (extract_outline slot doc)).
       1 \<le> entry_page e \<and> entry_page e \<le> min (length (pages doc)) 50"
  proof
    fix e assume "e \<in> set (outline (extract_outline slot doc))"
    then obtain i where "i \<in> set (collect_text_info doc)" "entry_page e = info_page i"
      using outline_from_text_info by blast
    then show "1 \<le> entry_page e \<and> entry_page e \<le> min (length (pages doc)) 50"
      using collect_text_info_pages[of i doc] by simp
  qed
  then show ?thesis
    using collect_text_info_pages[of _ doc] collect_text_info_take[of doc]
      extract_outline_take[of slot doc]
    by blast
qed

text \<open>The document of two pages: its second entry and its last line are on page 2.\<close>

theorem page_bound_witness:
  "\<lparr>entry_level = ''H2'', entry_text = ''Goals of the work'', entry_page = 2\<rparr>
     \<in> set (outline (extract_outline small_table_slot two_page_doc))
   \<and> \<lparr>info_text = ''it was done in 1999.'', info_font_size = 10, info_font_flags = 0, info_page = 2\<rparr>
     \<in> set (collect_text_info two_page_doc)
   \<and> min (length (pages two_page_doc)) 50 = 2"
proof -
  have o: "extract_outline small_table_slot two_page_doc
     = \<lparr>title = ''Scope'',
        outline = [\<lparr>entry_level = ''H1'', entry_text = ''Scope'', entry_page = 1\<rparr>,
                   \<lparr>entry_level = ''H2'', entry_text = ''Goals of the work'', entry_page = 2\<rparr>]\<rparr>"
    by code_simp
  have c: "collect_text_info two_page_doc
     = [\<lparr>info_text = ''Scope'', info_font_size = 20, info_font_flags = 0, info_page = 1\<rparr>,
        \<lparr>info_text = ''Goals of the work'', info_font_size = 16, info_font_flags = 16, info_page = 2\<rparr>,
        \<lparr>info_text = ''it was done in 1999.'', info_font_size = 10, info_font_flags = 0, info_page = 2\<rparr>]"
    by code_simp
  have l: "min (length (pages two_page_doc)) 50 = 2" by (simp add: two_page_doc_def)
  show ?thesis
    using page_bound [of small_table_slot two_page_doc] unfolding o c l by simp
qed

section \<open>The empty corpus\<close>

lemma strip_Nil_iff: "strip s = [] \<longleftrightarrow> (\<forall>c\<in>set s. is_space c)"
proof
  assume "strip s = []"
  then have "\<forall>x\<in>set (dropWhile is_space s). is_space x"
    by (simp add: strip_def rstrip_def lstrip_def dropWhile_eq_Nil_conv)
  then have "dropWhile is_space s = []"
    using hd_dropWhile[of is_space s] hd_in_set[of "dropWhile is_space s"] by blast
  then show "\<forall>c\<in>set s. is_space c" by (simp add: dropWhile_eq_Nil_conv)
next
  assume "\<forall>c\<in>set s. is_space c"
  then have d: "dropWhile is_space s = []" by (simp add: dropWhile_eq_Nil_conv)
  show "strip s = []" unfolding strip_def rstrip_def lstrip_def d by simp
qed

lemma merge_spans_fold:
  "fold (\<lambda>sp (line_text, line_font_size, line_font_flags).
             (line_text @ span_text sp, max line_font_size (span_size sp),
              or line_font_flags (span_flags sp))) spans (t, s, f)
   = (t @ concat (map span_text spans), fold (\<lambda>sp m. max m (span_size sp)) spans s,
      fold (\<lambda>sp m. or m (span_flags sp)) spans f)"
  by (induction spans arbitrary: t s f) simp_all

lemma merge_spans_text: "fst (merge_spans spans) = concat (map span_text spans)"
  by (simp add: merge_spans_def merge_spans_fold)

lemma collect_line_Nil:
  "collect_line page_num spans = [] \<longleftrightarrow> strip (concat (map span_text spans)) = []"
  using merge_spans_text[of spans]
  by (cases "merge_spans spans") (simp add: collect_line_def)

lemma blank_line_spans:
  "collect_line page_num spans = [] \<Longrightarrow> sp \<in> set spans \<Longrightarrow> strip (span_text sp) = []"
  by (auto simp: collect_line_Nil strip_Nil_iff)

lemma title_span_blank:
  "\<forall>sp\<in>set spans. strip (span_text sp) = [] \<Longrightarrow> fst st = []
   \<Longrightarrow> fst (fold title_span spans st) = []"
proof (induction spans arbitrary: st)
  case Nil
  then show ?case by simp
next
  case (Cons sp spans)
  have "fst (title_span sp st) = []"
    using Cons.prems by (cases st) (simp add: title_span_def)
  then show ?case using Cons by simp
qed

lemma title_lines_blank:
  "\<forall>spans\<in>set lines. \<forall>sp\<in>set spans. strip (span_text sp) = [] \<Longrightarrow> fst st = []
   \<Longrightarrow> fst (fold (\<lambda>line. fold title_span line) lines st) = []"
  by (induction lines arbitrary: st) (simp_all add: title_span_blank)

lemma title_blocks_blank:
  "\<forall>b\<in>set blocks. collect_block page_num b = [] \<Longrightarrow> fst st = []
   \<Longrightarrow> fst (fold title_block blocks st) = []"
proof (induction blocks arbitrary: st)
  case Nil
  then show ?case by simp
next
  case (Cons b blocks)
  have "fst (title_block b st) = []"
  proof (cases b)
    case None
    then show ?thesis using Cons.prems by (simp add: title_block_def)
  next
    case (Some lines)
    then have "\<forall>spans\<in>set lines. collect_line page_num spans = []"
      using Cons.prems by (simp add: collect_block_def)
    then have "\<forall>spans\<in>set lines. \<forall>sp\<in>set spans. strip (span_text sp) = []"
      using blank_line_spans by blast
    then show ?thesis using Some Cons.prems by (simp add: title_block_def title_lines_blank)
  qed
  then show ?case using Cons by simp
qed

lemma empty_corpus_title:
  assumes "collect_text_info doc = []"
    and "metadata_title doc = None \<or> metadata_title doc = Some []"
  shows "extract_title_from_document doc = ''Untitled Document''"
proof -
  have m: "(metadata_title doc \<noteq> None \<and> metadata_title doc \<noteq> Some []) = False"
    using assms(2) by auto
  show ?thesis
  proof (cases "pages doc")
    case Nil
    then have "(length (pages doc) > 0) = False" by simp
    then show ?thesis unfolding extract_title_from_document_def m by simp
  next
    case (Cons p ps)
    then have pos: "0 < min (length (pages doc)) 50" by simp
    let ?f = "\<lambda>page_num. concat (map (collect_block page_num) (pages doc ! page_num))"
    have "concat (map ?f [0 ..< min (length (pages doc)) 50]) = []"
      using assms(1) by (simp only: collect_text_info_def)
    then have "\<forall>xs\<in>set (map ?f [0 ..< min (length (pages doc)) 50]). xs = []"
      by (simp only: concat_eq_Nil_conv)
    moreover have "?f 0 \<in> set (map ?f [0 ..< min (length (pages doc)) 50])"
    proof -
      have "0 \<in> set [0 ..< min (length (pages doc)) 50]" using pos by simp
      then have "?f 0 \<in> ?f ` set [0 ..< min (length (pages doc)) 50]" by (rule imageI)
      then show ?thesis by (simp only: set_map)
    qed
    ultimately have "?f 0 = []" by blast
    then have "\<forall>b\<in>set (pages doc ! 0). collect_block 0 b = []"
      by (simp only: concat_eq_Nil_conv set_map) blast
    then have f: "fst (fold title_block (pages doc ! 0) ([], 0)) = []"
      by (rule title_blocks_blank) simp
    have l: "(length (pages doc) > 0) = True" using Cons by simp
    show ?thesis unfolding extract_title_from_document_def Let_def m l f by simp
  qed
qed

text \<open>
  When no text line is collected and the metadata holds no title or an empty one, the
  average and the common font size take the default 12, and the result is the title
  \<^verbatim>\<open>Untitled Document\<close> with an empty outline. No first-page title can exist then: every
  span of the first page is blank.
\<close>

lemma empty_corpus_output:
  "collect_text_info doc = [] \<and> (metadata_title doc = None \<or> metadata_title doc = Some [])
   \<longrightarrow> avg_font_size_of (map info_font_size (collect_text_info doc)) = 12
       \<and> common_font_size_of slot (map info_font_size (collect_text_info doc)) = 12
       \<and> extract_outline slot doc = \<lparr>title = ''Untitled Document'', outline = []\<rparr>"
proof
  assume a: "collect_text_info doc = [] \<and> (metadata_title doc = None \<or> metadata_title doc = Some [])"
  then have t: "extract_title_from_document doc = ''Untitled Document''"
    using empty_corpus_title by blast
  have o: "resolve_outline (assign_levels (find_headings 12 12 [])) = []"
    by (simp add: find_headings_def assign_levels_def resolve_outline_def unique_headings_of_def
          sort_headings_def)
  have s: "avg_font_size_of [] = 12" "common_font_size_of slot [] = 12"
    by (simp_all add: avg_font_size_of_def common_font_size_of_def set_items_def)
  show "avg_font_size_of (map info_font_size (collect_text_info doc)) = 12
       \<and> common_font_size_of slot (map info_font_size (collect_text_info doc)) = 12
       \<and> extract_outline slot doc = \<lparr>title = ''Untitled Document'', outline = []\<rparr>"
    using a t o s by (simp add: extract_outline_def)
qed

text \<open>Two pages holding an image block, a line of blanks and a line without spans.\<close>

lemma empty_corpus_output_example:
  "collect_text_info \<lparr>metadata_title = Some [],
      pages = [[None, Some [[\<lparr>span_text = ''   '', span_size = 11, span_flags = 0\<rparr>], []]], []]\<rparr> = []
   \<and> extract_outline small_table_slot \<lparr>metadata_title = Some [],
      pages = [[None, Some [[\<lparr>span_text = ''   '', span_size = 11, span_flags = 0\<rparr>], []]], []]\<rparr>
     = \<lparr>title = ''Untitled Document'', outline = []\<rparr>"
proof -
  let ?doc = "\<lparr>metadata_title = Some [],
      pages = [[None, Some [[\<lparr>span_text = ''   '', span_size = 11, span_flags = 0\<rparr>], []]], []]\<rparr>"
  have c: "collect_text_info ?doc = []" by code_simp
  then show ?thesis using empty_corpus_output [of ?doc small_table_slot] by simp
qed

text \<open>
  Claim C8. With no collected text line and no usable title in the metadata or on the
  first page, the statistics take the default 12 and the result is the title
  \<^verbatim>\<open>Untitled Document\<close> with an empty outline. The program breaks this for a metadata
  title that is blank but not empty: the title is tested for emptiness before it is
  stripped, so a document of one image-only page whose metadata title is a single blank
  gets the empty string as its title.
\<close>

theorem empty_corpus_blank_title:
  "collect_text_info \<lparr>metadata_title = Some '' '', pages = [[None]]\<rparr> = []
   \<and> avg_font_size_of (map info_font_size
         (collect_text_info \<lparr>metadata_title = Some '' '', pages = [[None]]\<rparr>)) = 12
   \<and> extract_outline small_table_slot \<lparr>metadata_title = Some '' '', pages = [[None]]\<rparr>
       = \<lparr>title = [], outline = []\<rparr>"
  by code_simp

section \<open>The title\<close>

lemma fold_title_lines:
  "fold (\<lambda>line. fold title_span line) lines st = fold title_span (concat lines) st"
  by (induction lines arbitrary: st) simp_all

lemma fold_title_blocks:
  "fold title_block blocks st
   = fold title_span
       (concat (map (\<lambda>b. case b of None \<Rightarrow> [] | Some lines \<Rightarrow> concat lines) blocks)) st"
  by (induction blocks arbitrary: st)
     (simp_all add: title_block_def fold_title_lines split: option.splits)

lemma fold_title_span_split:
  "(fold title_span spans (t0, s0) = (t0, s0) \<and> (\<forall>q\<in>set spans. span_size q \<le> s0))
   \<or> (\<exists>pre sp post. spans = pre @ sp # post
        \<and> fold title_span spans (t0, s0) = (strip (span_text sp), span_size sp)
        \<and> s0 < span_size sp
        \<and> (\<forall>q\<in>set pre. span_size q < span_size sp)
        \<and> (\<forall>q\<in>set post. span_size q \<le> span_size sp))"
proof (induction spans arbitrary: t0 s0)
  case Nil
  show ?case by simp
next
  case (Cons a spans)
  show ?case
  proof (cases "span_size a > s0")
    case True
    then have st: "fold title_span (a # spans) (t0, s0)
        = fold title_span spans (strip (span_text a), span_size a)"
      by (simp add: title_span_def)
    from Cons.IH[of "strip (span_text a)" "span_size a"]
    show ?thesis
    proof
      assume h: "fold title_span spans (strip (span_text a), span_size a)
                   = (strip (span_text a), span_size a)
                 \<and> (\<forall>q\<in>set spans. span_size q \<le> span_size a)"
      then have "a # spans = [] @ a # spans
          \<and> fold title_span (a # spans) (t0, s0) = (strip (span_text a), span_size a)
          \<and> s0 < span_size a \<and> (\<forall>q\<in>set []. span_size q < span_size a)
          \<and> (\<forall>q\<in>set spans. span_size q \<le> span_size a)"
        using st True by simp
      then show ?thesis by blast
    next
      assume "\<exists>pre sp post. spans = pre @ sp # post
        \<and> fold title_span spans (strip (span_text a), span_size a)
            = (strip (span_text sp), span_size sp)
        \<and> span_size a < span_size sp
        \<and> (\<forall>q\<in>set pre. span_size q < span_size sp)
        \<and> (\<forall>q\<in>set post. span_size q \<le> span_size sp)"
      then obtain pre sp post where d: "spans = pre @ sp # post"
        "fold title_span spans (strip (span_text a), span_size a)
            = (strip (span_text sp), span_size sp)"
        "span_size a < span_size sp" "\<forall>q\<in>set pre. span_size q < span_size sp"
        "\<forall>q\<in>set post. span_size q \<le> span_size sp"
        by blast
      then have "a # spans = (a # pre) @ sp # post
          \<and> fold title_span (a # spans) (t0, s0) = (strip (span_text sp), span_size sp)
          \<and> s0 < span_size sp \<and> (\<forall>q\<in>set (a # pre). span_size q < span_size sp)
          \<and> (\<forall>q\<in>set post. span_size q \<le> span_size sp)"
        using st True by simp
      then show ?thesis by blast
    qed
  next
    case False
    then have st: "fold title_span (a # spans) (t0, s0) = fold title_span spans (t0, s0)"
      by (simp add: title_span_def)
    from Cons.IH[of t0 s0]
    show ?thesis
    proof
      assume "fold title_span spans (t0, s0) = (t0, s0) \<and> (\<forall>q\<in>set spans. span_size q \<le> s0)"
      then show ?thesis using st False by simp
    next
      assume "\<exists>pre sp post. spans = pre @ sp # post
        \<and> fold title_span spans (t0, s0) = (strip (span_text sp), span_size sp)
        \<and> s0 < span_size sp
        \<and> (\<forall>q\<in>set pre. span_size q < span_size sp)
        \<and> (\<forall>q\<in>set post. span_size q \<le> span_size sp)"
      then obtain pre sp post where d: "spans = pre @ sp # post"
        "fold title_span spans (t0, s0) = (strip (span_text sp), span_size sp)"
        "s0 < span_size sp" "\<forall>q\<in>set pre. span_size q < span_size sp"
        "\<forall>q\<in>set post. span_size q \<le> span_size sp"
        by blast
      then have "a # spans = (a # pre) @ sp # post
          \<and> fold title_span (a # spans) (t0, s0) = (strip (span_text sp), span_size sp)
          \<and> s0 < span_size sp \<and> (\<forall>q\<in>set (a # pre). span_size q < span_size sp)
          \<and> (\<forall>q\<in>set post. span_size q \<le> span_size sp)"
        using st False by simp
      then show ?thesis by blast
    qed
  qed
qed

lemma scan_first_largest:
  "fst (fold title_span spans ([], 0))
   = (if filter (\<lambda>s. span_size s > 0) spans = [] then []
      else strip (span_text (first_largest (filter (\<lambda>s. span_size s > 0) spans))))"
proof -
  let ?pos = "\<lambda>s. span_size s > (0::rat)"
  from fold_title_span_split[of spans "[]" 0]
  show ?thesis
  proof
    assume h: "fold title_span spans ([], 0) = ([], 0) \<and> (\<forall>q\<in>set spans. span_size q \<le> 0)"
    then have "filter ?pos spans = []" by (auto simp: filter_empty_conv)
    then show ?thesis using h by simp
  next
    assume "\<exists>pre sp post. spans = pre @ sp # post
        \<and> fold title_span spans ([], 0) = (strip (span_text sp), span_size sp)
        \<and> 0 < span_size sp
        \<and> (\<forall>q\<in>set pre. span_size q < span_size sp)
        \<and> (\<forall>q\<in>set post. span_size q \<le> span_size sp)"
    then obtain pre sp post where d: "spans = pre @ sp # post"
        "fold title_span spans ([], 0) = (strip (span_text sp), span_size sp)"
        "0 < span_size sp" "\<forall>q\<in>set pre. span_size q < span_size sp"
        "\<forall>q\<in>set post. span_size q \<le> span_size sp"
      by blast
    have p: "filter ?pos spans = filter ?pos pre @ sp # filter ?pos post"
      using d(1,3) by simp
    have "hd (filter (\<lambda>x. \<forall>y\<in>set (filter ?pos spans). span_size y \<le> span_size x)
                (filter ?pos spans)) = sp"
      using p
    proof (rule first_largest_unique)
      show "\<forall>y\<in>set (filter ?pos pre). span_size y < span_size sp" using d(4) by simp
      show "\<forall>y\<in>set (filter ?pos post). span_size y \<le> span_size sp" using d(5) by simp
    qed
    then have "first_largest (filter ?pos spans) = sp" by (simp only: first_largest_def)
    moreover have "filter ?pos spans \<noteq> []" using p by simp
    ultimately show ?thesis using d(2) by simp
  qed
qed

lemma extract_title_metadata:
  "metadata_title doc = Some t \<Longrightarrow> t \<noteq> [] \<Longrightarrow> extract_title_from_document doc = strip t"
  by (simp add: extract_title_from_document_def)

lemma extract_title_first_page:
  assumes "metadata_title doc = None \<or> metadata_title doc = Some []"
  shows "extract_title_from_document doc
         = spec_title None (filter (\<lambda>s. span_size s > 0) (first_page_spans doc))"
proof -
  have m: "(metadata_title doc \<noteq> None \<and> metadata_title doc \<noteq> Some []) = False"
    using assms by auto
  show ?thesis
  proof (cases "pages doc")
    case Nil
    then have "(length (pages doc) > 0) = False" by simp
    then have "extract_title_from_document doc = ''Untitled Document''"
      unfolding extract_title_from_document_def m by simp
    then show ?thesis using Nil by (simp add: spec_title_def first_page_spans_def)
  next
    case (Cons p ps)
    then have l: "(length (pages doc) > 0) = True" by simp
    have s: "first_page_spans doc
       = concat (map (\<lambda>b. case b of None \<Rightarrow> [] | Some lines \<Rightarrow> concat lines) (pages doc ! 0))"
      using Cons by (simp add: first_page_spans_def)
    have f: "fst (fold title_block (pages doc ! 0) ([], 0))
       = (if filter (\<lambda>s. span_size s > 0) (first_page_spans doc) = [] then []
          else strip (span_text (first_largest (filter (\<lambda>s. span_size s > 0) (first_page_spans doc)))))"
      unfolding fold_title_blocks s[symmetric] by (rule scan_first_largest)
    show ?thesis
      unfolding extract_title_from_document_def Let_def m l f
      by (simp add: spec_title_def)
  qed
qed

text \<open>
  Claim C4, amended. A metadata title that is not blank after trimming is returned
  trimmed. When the metadata holds no title or an empty one, the first-page spans of
  positive size decide: the first of those of largest size gives the title when its
  trimmed text has more than 3 characters, and otherwise, also when no span has a
  positive size, the title is \<^verbatim>\<open>Untitled Document\<close>.
\<close>

theorem title_resolution:
  "(\<forall>t. metadata_title doc = Some t \<and> strip t \<noteq> [] \<longrightarrow> extract_title_from_document doc = strip t)
   \<and> (metadata_title doc = None \<or> metadata_title doc = Some [] \<longrightarrow>
        extract_title_from_document doc
        = spec_title None (filter (\<lambda>s. span_size s > 0) (first_page_spans doc)))"
proof -
  have "\<forall>t. metadata_title doc = Some t \<and> strip t \<noteq> [] \<longrightarrow> extract_title_from_document doc = strip t"
  proof (intro allI impI)
    fix t assume a: "metadata_title doc = Some t \<and> strip t \<noteq> []"
    then have "t \<noteq> []" by (auto simp: strip_def lstrip_def rstrip_def)
    then show "extract_title_from_document doc = strip t"
      using a extract_title_metadata by blast
  qed
  then show ?thesis using extract_title_first_page[of doc] by blast
qed

text \<open>A title from the metadata, and a title from the first of two spans of size 24.\<close>

theorem title_resolution_witness:
  "strip '' My Thesis '' \<noteq> []
   \<and> extract_title_from_document \<lparr>metadata_title = Some '' My Thesis '', pages = []\<rparr> = ''My Thesis''
   \<and> extract_title_from_document
        \<lparr>metadata_title = None,
         pages = [[None, Some [[\<lparr>span_text = ''Page 1'', span_size = 10, span_flags = 0\<rparr>],
                               [\<lparr>span_text = '' Annual Report '', span_size = 24, span_flags = 0\<rparr>,
                                \<lparr>span_text = ''Other'', span_size = 24, span_flags = 0\<rparr>]]]]\<rparr>
       = ''Annual Report''"
proof -
  let ?d1 = "\<lparr>metadata_title = Some '' My Thesis '', pages = []\<rparr>"
  let ?d2 = "\<lparr>metadata_title = None,
         pages = [[None, Some [[\<lparr>span_text = ''Page 1'', span_size = 10, span_flags = 0\<rparr>],
                               [\<lparr>span_text = '' Annual Report '', span_size = 24, span_flags = 0\<rparr>,
                                \<lparr>span_text = ''Other'', span_size = 24, span_flags = 0\<rparr>]]]]\<rparr>"
  have a: "strip '' My Thesis '' = ''My Thesis''" by (simp add: eval_strip)
  then have 1: "extract_title_from_document ?d1 = ''My Thesis''"
    using title_resolution [of ?d1] by simp
  have "spec_title None (filter (\<lambda>s. span_size s > 0) (first_page_spans ?d2)) = ''Annual Report''"
    by code_simp
  then have 2: "extract_title_from_document ?d2 = ''Annual Report''"
    using title_resolution [of ?d2] by simp
  show ?thesis using a 1 2 by simp
qed

text \<open>
  Claim C4 as the specification words it fails twice. For a metadata title of three
  blanks the program returns the empty string, not the first-page title; and a span of
  size 0 is never selected, so a first page whose only span has size 0 gives
  \<^verbatim>\<open>Untitled Document\<close>.
\<close>

theorem title_resolution_counterexample:
  "extract_title_from_document
      \<lparr>metadata_title = Some ''   '',
       pages = [[Some [[\<lparr>span_text = ''Annual Report'', span_size = 24, span_flags = 0\<rparr>]]]]\<rparr> = []
   \<and> spec_title (Some ''   '')
        (first_page_spans
          \<lparr>metadata_title = Some ''   '',
           pages = [[Some [[\<lparr>span_text = ''Annual Report'', span_size = 24, span_flags = 0\<rparr>]]]]\<rparr>)
       = ''Annual Report''
   \<and> extract_title_from_document
      \<lparr>metadata_title = None,
       pages = [[Some [[\<lparr>span_text = ''Annual Report'', span_size = 0, span_flags = 0\<rparr>]]]]\<rparr>
       = ''Untitled Document''
   \<and> spec_title None
        (first_page_spans
          \<lparr>metadata_title = None,
           pages = [[Some [[\<lparr>span_text = ''Annual Report'', span_size = 0, span_flags = 0\<rparr>]]]]\<rparr>)
       = ''Annual Report''"
  by code_simp

end
